theory Spec2Isabelle
  imports Complex_Main
begin

section \<open>Errors\<close>

text \<open>
  Every \<^verbatim>\<open>throw new Error(...)\<close> of the two database clients is a constructor, and so
  is every constraint failure the SQLite engine can raise for the statements the clients
  run. The \<^verbatim>\<open>catch\<close> blocks that re-throw with a prefix (\<^verbatim>\<open>Entity operation failed: ...\<close>,
  \<^verbatim>\<open>Failed to delete entity ...\<close>, \<^verbatim>\<open>Failed to create relations: ...\<close>,
  \<^verbatim>\<open>Node search failed: ...\<close>) are the wrapping constructors.
\<close>

datatype error =
    EntityNameInvalid
  | InvalidEntityType string
  | NoObservations string
  | InvalidObservations string
  | VectorDimensionMismatch nat
  | EntityNotFound string
  | RelationNotFound string string string
  | TextQueryEmpty
  | SqliteConstraintPrimaryKey
  | SqliteConstraintForeignKey
  | SqliteMismatch
  | EntityOperationFailed error
  | FailedToDeleteEntity string error
  | FailedToCreateRelations error
  | FailedToDeleteRelation error
  | NodeSearchFailed error

section \<open>Strings\<close>

text \<open>
  Strings are ASCII texts. \<open>is_space\<close> is the ASCII part of the white space that
  JavaScript's \<^verbatim>\<open>trim\<close> and the regular expression class \<^verbatim>\<open>\s\<close> recognise: tab, line
  feed, vertical tab, form feed, carriage return and space.
\<close>

definition is_space :: "char \<Rightarrow> bool" where
  "is_space c = (c = CHR 0x09 \<or> c = CHR 0x0A \<or> c = CHR 0x0B \<or> c = CHR 0x0C
                 \<or> c = CHR 0x0D \<or> c = CHR 0x20)"

definition js_trim :: "string \<Rightarrow> string" where
  "js_trim s = rev (dropWhile is_space (rev (dropWhile is_space s)))"

section \<open>Numbers\<close>

text \<open>
  A JavaScript number is a finite value (a rational here), NaN or one of the two
  infinities. \<open>number_le\<close> is the comparison \<^verbatim>\<open><=\<close> of such numbers, which is false as
  soon as one side is NaN. \<^verbatim>\<open>Math.max\<close> and \<^verbatim>\<open>Math.min\<close> of two numbers return NaN
  when one of them is NaN.
\<close>

datatype number = Finite rat | NaN | PosInfinity | NegInfinity

fun number_le :: "number \<Rightarrow> number \<Rightarrow> bool" where
  "number_le NaN b = False"
| "number_le a NaN = False"
| "number_le NegInfinity b = True"
| "number_le a PosInfinity = True"
| "number_le (Finite x) (Finite y) = (x \<le> y)"
| "number_le a b = False"

definition math_max :: "number \<Rightarrow> number \<Rightarrow> number" where
  "math_max a b = (if a = NaN \<or> b = NaN then NaN else if number_le a b then b else a)"

definition math_min :: "number \<Rightarrow> number \<Rightarrow> number" where
  "math_min a b = (if a = NaN \<or> b = NaN then NaN else if number_le a b then a else b)"

section \<open>The tables\<close>

text \<open>
  The schema of \<^verbatim>\<open>initialize\<close>. A table is the list of its rows in rowid order, so that
  a row inserted later stands later. \<open>entities\<close> has \<^verbatim>\<open>name TEXT PRIMARY KEY\<close> and
  therefore SQLite's implicit rowid, which the vector-enabled client joins on. The
  \<^verbatim>\<open>id\<close> columns of \<open>observations\<close> and \<open>relations\<close> and the \<^verbatim>\<open>created_at\<close> of
  \<open>observations\<close> are read by no statement of either client; the list position stands
  for the id.
\<close>

record entity_row =
  e_rowid :: nat
  e_name :: string
  e_entity_type :: string
  e_created_at :: nat

record observation_row =
  o_entity_name :: string
  o_content :: string

record relation_row =
  source :: string
  target :: string
  relation_type :: string
  r_created_at :: nat

record db =
  tbl_entities :: "entity_row list"
  tbl_observations :: "observation_row list"
  tbl_relations :: "relation_row list"

definition empty_db :: db where
  "empty_db = \<lparr>tbl_entities = [], tbl_observations = [], tbl_relations = []\<rparr>"

text \<open>The request and result types of \<^verbatim>\<open>types/index.ts\<close>.\<close>

record entity =
  name :: string
  entityType :: string
  observations :: "string list"

record relation =
  rel_from :: string
  rel_to :: string
  relationType :: string

section \<open>Transactions\<close>

text \<open>
  \<^verbatim>\<open>db.transaction(fn)()\<close> of better-sqlite3 runs \<open>fn\<close>; when \<open>fn\<close> throws, every
  write it made is rolled back and the exception is thrown again, otherwise the writes are
  committed. An operation returns its outcome together with the store it leaves behind.
\<close>

definition transaction :: "('s \<Rightarrow> error + 's) \<Rightarrow> 's \<Rightarrow> (error + unit) \<times> 's" where
  "transaction body s = (case body s of Inl err \<Rightarrow> (Inl err, s) | Inr s' \<Rightarrow> (Inr (), s'))"

definition rethrow :: "(error \<Rightarrow> error) \<Rightarrow> (error + 'a) \<times> 's \<Rightarrow> (error + 'a) \<times> 's" where
  "rethrow wrap r = (case fst r of Inl err \<Rightarrow> (Inl (wrap err), snd r) | Inr v \<Rightarrow> r)"

section \<open>SQL statements\<close>

text \<open>
  The connection is opened with \<^verbatim>\<open>PRAGMA foreign_keys = ON\<close>, and the schema declares
  \<^verbatim>\<open>FOREIGN KEY (entity_name) REFERENCES entities(name)\<close> on \<open>observations\<close> and
  \<^verbatim>\<open>FOREIGN KEY (source)\<close>, \<^verbatim>\<open>FOREIGN KEY (target) REFERENCES entities(name)\<close> on
  \<open>relations\<close>: an insert of a child row whose parent is missing, and a delete of a
  parent row that still has children, fail with \<^verbatim>\<open>FOREIGN KEY constraint failed\<close>.
\<close>

text \<open>\<^verbatim>\<open>SELECT ... FROM entities WHERE name = ?\<close> with \<^verbatim>\<open>.get\<close>: the first row or undefined.\<close>

definition select_entity :: "db \<Rightarrow> string \<Rightarrow> entity_row option" where
  "select_entity d n = find (\<lambda>r. e_name r = n) (tbl_entities d)"

text \<open>\<^verbatim>\<open>SELECT content FROM observations WHERE entity_name = ?\<close> with \<^verbatim>\<open>.all\<close>.\<close>

definition select_observations :: "db \<Rightarrow> string \<Rightarrow> string list" where
  "select_observations d n =
     map o_content (filter (\<lambda>r. o_entity_name r = n) (tbl_observations d))"

definition same_triple :: "relation \<Rightarrow> relation_row \<Rightarrow> bool" where
  "same_triple r row =
     (source row = rel_from r \<and> target row = rel_to r \<and> relation_type row = relationType r)"

definition triple_of :: "relation_row \<Rightarrow> string \<times> string \<times> string" where
  "triple_of row = (source row, target row, relation_type row)"

text \<open>
  \<^verbatim>\<open>INSERT OR IGNORE INTO relations (source, target, relation_type) VALUES (?, ?, ?)\<close>.
  \<^verbatim>\<open>OR IGNORE\<close> skips a row that conflicts with \<^verbatim>\<open>UNIQUE(source, target, relation_type)\<close>;
  it does not apply to foreign keys, whose violation aborts the statement.
\<close>

definition insert_or_ignore_relation :: "nat \<Rightarrow> db \<Rightarrow> relation \<Rightarrow> error + db" where
  "insert_or_ignore_relation now d r =
     (if list_ex (same_triple r) (tbl_relations d) then Inr d
      else if select_entity d (rel_from r) = None \<or> select_entity d (rel_to r) = None
        then Inl SqliteConstraintForeignKey
      else Inr (d\<lparr>tbl_relations := tbl_relations d @
                  [\<lparr>source = rel_from r, target = rel_to r,
                    relation_type = relationType r, r_created_at = now\<rparr>]\<rparr>))"

section \<open>Relation operations\<close>

fun create_relations_loop :: "nat \<Rightarrow> db \<Rightarrow> relation list \<Rightarrow> error + db" where
  "create_relations_loop now d [] = Inr d"
| "create_relations_loop now d (r # rs) =
     (case insert_or_ignore_relation now d r of
        Inl err \<Rightarrow> Inl err
      | Inr d' \<Rightarrow> create_relations_loop now d' rs)"

text \<open>\<open>now\<close> is the value of \<^verbatim>\<open>CURRENT_TIMESTAMP\<close> during the call.\<close>

definition create_relations :: "nat \<Rightarrow> db \<Rightarrow> relation list \<Rightarrow> (error + unit) \<times> db" where
  "create_relations now d relations =
     (if relations = [] then (Inr (), d)
      else rethrow FailedToCreateRelations
             (transaction (\<lambda>s. create_relations_loop now s relations) d))"

text \<open>A sequence of \<open>create_relations\<close> calls, each with its time and its batch.\<close>

fun create_relations_calls :: "db \<Rightarrow> (nat \<times> relation list) list \<Rightarrow> db" where
  "create_relations_calls d [] = d"
| "create_relations_calls d (c # cs) =
     create_relations_calls (snd (create_relations (fst c) d (snd c))) cs"


section \<open>Entity operations of the text-only client\<close>

text \<open>
  The four validation checks at the head of the loop body of \<^verbatim>\<open>create_entities\<close>, in
  the order of the source. The request is typed, so the \<^verbatim>\<open>typeof\<close> tests and
  \<^verbatim>\<open>Array.isArray\<close> hold; \<^verbatim>\<open>!entity.name\<close> is the test for the empty string.
\<close>

definition validate_entity :: "'a entity_scheme \<Rightarrow> error option" where
  "validate_entity e =
     (if name e = [] \<or> js_trim (name e) = [] then Some EntityNameInvalid
      else if entityType e = [] \<or> js_trim (entityType e) = []
        then Some (InvalidEntityType (name e))
      else if observations e = [] then Some (NoObservations (name e))
      else if \<not> list_all (\<lambda>obs. js_trim obs \<noteq> []) (observations e)
        then Some (InvalidObservations (name e))
      else None)"

text \<open>\<^verbatim>\<open>UPDATE entities SET entity_type = ? WHERE name = ?\<close>\<close>

definition update_entity_type :: "db \<Rightarrow> string \<Rightarrow> string \<Rightarrow> db" where
  "update_entity_type d t n =
     d\<lparr>tbl_entities :=
         map (\<lambda>r. if e_name r = n then r\<lparr>e_entity_type := t\<rparr> else r) (tbl_entities d)\<rparr>"

text \<open>
  \<^verbatim>\<open>INSERT INTO entities (name, entity_type) VALUES (?, ?)\<close>: the new row gets one more
  than the largest rowid in use (1 in an empty table) and \<^verbatim>\<open>CURRENT_TIMESTAMP\<close> as
  \<open>created_at\<close>; a name that is already there violates the primary key.
\<close>

definition next_rowid :: "nat list \<Rightarrow> nat" where
  "next_rowid ids = fold max ids 0 + 1"

definition insert_entity :: "nat \<Rightarrow> db \<Rightarrow> string \<Rightarrow> string \<Rightarrow> error + db" where
  "insert_entity now d n t =
     (if select_entity d n \<noteq> None then Inl SqliteConstraintPrimaryKey
      else Inr (d\<lparr>tbl_entities := tbl_entities d @
                  [\<lparr>e_rowid = next_rowid (map e_rowid (tbl_entities d)), e_name = n,
                    e_entity_type = t, e_created_at = now\<rparr>]\<rparr>))"

text \<open>\<^verbatim>\<open>DELETE FROM observations WHERE entity_name = ?\<close>\<close>

definition delete_observations :: "db \<Rightarrow> string \<Rightarrow> db" where
  "delete_observations d n =
     d\<lparr>tbl_observations := filter (\<lambda>r. o_entity_name r \<noteq> n) (tbl_observations d)\<rparr>"

text \<open>\<^verbatim>\<open>INSERT INTO observations (entity_name, content) VALUES (?, ?)\<close>\<close>

definition insert_observation :: "db \<Rightarrow> string \<Rightarrow> string \<Rightarrow> error + db" where
  "insert_observation d n c =
     (if select_entity d n = None then Inl SqliteConstraintForeignKey
      else Inr (d\<lparr>tbl_observations := tbl_observations d @
                  [\<lparr>o_entity_name = n, o_content = c\<rparr>]\<rparr>))"

fun insert_observations :: "db \<Rightarrow> string \<Rightarrow> string list \<Rightarrow> error + db" where
  "insert_observations d n [] = Inr d"
| "insert_observations d n (c # cs) =
     (case insert_observation d n c of
        Inl err \<Rightarrow> Inl err
      | Inr d' \<Rightarrow> insert_observations d' n cs)"

text \<open>The existence check with its \<^verbatim>\<open>UPDATE\<close> or \<^verbatim>\<open>INSERT\<close>.\<close>

definition upsert_entity_row :: "nat \<Rightarrow> db \<Rightarrow> string \<Rightarrow> string \<Rightarrow> error + db" where
  "upsert_entity_row now d n t =
     (case select_entity d n of
        Some existing \<Rightarrow> Inr (update_entity_type d t n)
      | None \<Rightarrow> insert_entity now d n t)"

text \<open>Clear old observations, add new observations.\<close>

definition replace_observations :: "db \<Rightarrow> string \<Rightarrow> string list \<Rightarrow> error + db" where
  "replace_observations d n obs = insert_observations (delete_observations d n) n obs"

text \<open>The body of the loop over the batch.\<close>

definition create_entities_body :: "nat \<Rightarrow> db \<Rightarrow> 'a entity_scheme \<Rightarrow> error + db" where
  "create_entities_body now d e =
     (case validate_entity e of
        Some err \<Rightarrow> Inl err
      | None \<Rightarrow>
          (case upsert_entity_row now d (name e) (entityType e) of
             Inl err \<Rightarrow> Inl err
           | Inr d1 \<Rightarrow> replace_observations d1 (name e) (observations e)))"

fun create_entities_loop :: "nat \<Rightarrow> db \<Rightarrow> 'a entity_scheme list \<Rightarrow> error + db" where
  "create_entities_loop now d [] = Inr d"
| "create_entities_loop now d (e # es) =
     (case create_entities_body now d e of
        Inl err \<Rightarrow> Inl err
      | Inr d' \<Rightarrow> create_entities_loop now d' es)"

definition create_entities :: "nat \<Rightarrow> db \<Rightarrow> entity list \<Rightarrow> (error + unit) \<times> db" where
  "create_entities now d entities =
     rethrow EntityOperationFailed
       (transaction (\<lambda>s. create_entities_loop now s entities) d)"

definition get_entity :: "db \<Rightarrow> string \<Rightarrow> error + entity" where
  "get_entity d n =
     (case select_entity d n of
        None \<Rightarrow> Inl (EntityNotFound n)
      | Some entity_result \<Rightarrow>
          Inr \<lparr>name = e_name entity_result, entityType = e_entity_type entity_result,
               observations = select_observations d n\<rparr>)"

text \<open>\<^verbatim>\<open>DELETE FROM relations WHERE source = ? OR target = ?\<close>\<close>

definition delete_relations_of :: "db \<Rightarrow> string \<Rightarrow> db" where
  "delete_relations_of d n =
     d\<lparr>tbl_relations := filter (\<lambda>r. \<not> (source r = n \<or> target r = n)) (tbl_relations d)\<rparr>"

text \<open>
  \<^verbatim>\<open>DELETE FROM entities WHERE name = ?\<close>: refused while an observation or a relation
  still references the name.
\<close>

definition delete_entity_row :: "db \<Rightarrow> string \<Rightarrow> error + db" where
  "delete_entity_row d n =
     (if list_ex (\<lambda>r. e_name r = n) (tbl_entities d) \<and>
         (list_ex (\<lambda>r. o_entity_name r = n) (tbl_observations d) \<or>
          list_ex (\<lambda>r. source r = n \<or> target r = n) (tbl_relations d))
      then Inl SqliteConstraintForeignKey
      else Inr (d\<lparr>tbl_entities := filter (\<lambda>r. e_name r \<noteq> n) (tbl_entities d)\<rparr>))"

text \<open>
  The existence check stands before the transaction and inside the \<^verbatim>\<open>try\<close>, so its
  error is wrapped like any other.
\<close>

definition delete_entity :: "db \<Rightarrow> string \<Rightarrow> (error + unit) \<times> db" where
  "delete_entity d n =
     rethrow (FailedToDeleteEntity n)
       (case select_entity d n of
          None \<Rightarrow> (Inl (EntityNotFound n), d)
        | Some existing \<Rightarrow>
            transaction
              (\<lambda>s. delete_entity_row (delete_relations_of (delete_observations s n) n) n) d)"

definition get_relations_for_entities :: "db \<Rightarrow> 'a entity_scheme list \<Rightarrow> relation list" where
  "get_relations_for_entities d entities =
     (if entities = [] then []
      else map (\<lambda>row. \<lparr>rel_from = source row, rel_to = target row,
                        relationType = relation_type row\<rparr>)
             (filter (\<lambda>row. source row \<in> set (map name entities) \<or>
                             target row \<in> set (map name entities))
                (tbl_relations d)))"


section \<open>Text search of the text-only client\<close>

text \<open>
  SQLite's \<^verbatim>\<open>LIKE\<close>: \<^verbatim>\<open>%\<close> in the pattern stands for any run of characters, \<^verbatim>\<open>_\<close>
  for any one character, every other character for itself, upper and lower case ASCII
  letters being the same; there is no escape character unless the statement names one.
\<close>

definition lower_ascii :: "char \<Rightarrow> char" where
  "lower_ascii c =
     (if 65 \<le> (of_char c :: nat) \<and> (of_char c :: nat) \<le> 90
      then char_of ((of_char c :: nat) + 32) else c)"

fun like :: "string \<Rightarrow> string \<Rightarrow> bool" where
  "like [] [] = True"
| "like [] (c # cs) = False"
| "like (p # ps) [] = (p = CHR ''%'' \<and> like ps [])"
| "like (p # ps) (c # cs) =
     (if p = CHR ''%'' then like ps (c # cs) \<or> like (p # ps) cs
      else (p = CHR ''_'' \<or> lower_ascii p = lower_ascii c) \<and> like ps cs)"

text \<open>\<^verbatim>\<open>query.replace(/[\s_-]+/g, '%')\<close>: every maximal run of separators becomes one \<^verbatim>\<open>%\<close>.\<close>

definition is_separator :: "char \<Rightarrow> bool" where
  "is_separator c = (is_space c \<or> c = CHR ''_'' \<or> c = CHR ''-'')"

function normalize_query :: "string \<Rightarrow> string" where
  "normalize_query [] = []"
| "normalize_query (c # cs) =
     (if is_separator c then CHR ''%'' # normalize_query (dropWhile is_separator cs)
      else c # normalize_query cs)"
  by pat_completeness auto
termination
  by (relation "measure length") (auto simp: length_dropWhile_le less_Suc_eq_le)

definition search_pattern :: "string \<Rightarrow> string" where
  "search_pattern query = CHR ''%'' # normalize_query query @ [CHR ''%'']"

text \<open>\<^verbatim>\<open>Math.min(Math.max(1, limit), 50)\<close>: nothing rounds the limit.\<close>

definition effective_limit :: "number \<Rightarrow> number" where
  "effective_limit limit = math_min (math_max (Finite 1) limit) (Finite 50)"

text \<open>
  The rows of \<^verbatim>\<open>entities e LEFT JOIN observations o ON e.name = o.entity_name\<close>: an
  entity with no observation gives one row whose \<open>o.content\<close> is NULL.
\<close>

definition left_join_observations :: "db \<Rightarrow> (entity_row \<times> string option) list" where
  "left_join_observations d =
     concat (map (\<lambda>e. case filter (\<lambda>ob. o_entity_name ob = e_name e) (tbl_observations d) of
                         [] \<Rightarrow> [(e, None)]
                       | obs \<Rightarrow> map (\<lambda>ob. (e, Some (o_content ob))) obs)
                  (tbl_entities d))"

text \<open>The \<^verbatim>\<open>WHERE\<close> clause; \<^verbatim>\<open>NULL LIKE ?\<close> is not true.\<close>

definition where_matches :: "string \<Rightarrow> entity_row \<times> string option \<Rightarrow> bool" where
  "where_matches pat j =
     (like pat (e_name (fst j)) \<or> like pat (e_entity_type (fst j)) \<or>
      (case snd j of None \<Rightarrow> False | Some content \<Rightarrow> like pat content))"

record search_row =
  sr_name :: string
  sr_entity_type :: string
  sr_created_at :: nat
  relevance_score :: nat

text \<open>The select list, with the \<^verbatim>\<open>CASE\<close> expression named \<open>relevance_score\<close>.\<close>

definition select_list :: "string \<Rightarrow> entity_row \<times> string option \<Rightarrow> search_row" where
  "select_list pat j =
     \<lparr>sr_name = e_name (fst j), sr_entity_type = e_entity_type (fst j),
      sr_created_at = e_created_at (fst j),
      relevance_score = (if like pat (e_name (fst j)) then 3
                         else if like pat (e_entity_type (fst j)) then 2 else 1)\<rparr>"

text \<open>
  \<^verbatim>\<open>ORDER BY relevance_score DESC, e.created_at DESC\<close>. \<open>ranks_before r s\<close> says that
  \<open>r\<close> may stand before \<open>s\<close>. SQL leaves the order of rows that tie on both keys open;
  here they keep the order they had.
\<close>

definition ranks_before :: "search_row \<Rightarrow> search_row \<Rightarrow> bool" where
  "ranks_before r s =
     (relevance_score s < relevance_score r \<or>
      (relevance_score r = relevance_score s \<and> sr_created_at s \<le> sr_created_at r))"

fun insert_row :: "search_row \<Rightarrow> search_row list \<Rightarrow> search_row list" where
  "insert_row r [] = [r]"
| "insert_row r (s # ss) = (if ranks_before r s then r # s # ss else s # insert_row r ss)"

definition order_by :: "search_row list \<Rightarrow> search_row list" where
  "order_by rows = foldr insert_row rows []"

text \<open>The \<^verbatim>\<open>SELECT DISTINCT ... WHERE ... ORDER BY ...\<close> part of the statement.\<close>

definition matching_rows :: "db \<Rightarrow> string \<Rightarrow> search_row list" where
  "matching_rows d pat =
     order_by (remdups (map (select_list pat)
                          (filter (where_matches pat) (left_join_observations d))))"

text \<open>
  \<^verbatim>\<open>LIMIT ?\<close> with the value bound to it. better-sqlite3 binds a JavaScript number as
  an integer when it is one and as a REAL otherwise, and NaN as NULL. SQLite takes a
  value that converts to a 64-bit integer without loss (a negative one means no limit)
  and refuses every other value with \<^verbatim>\<open>datatype mismatch\<close>.
\<close>

definition sqlite_limit :: "number \<Rightarrow> 'a list \<Rightarrow> error + 'a list" where
  "sqlite_limit v rows =
     (case v of
        Finite q \<Rightarrow>
          if q = of_int \<lfloor>q\<rfloor> \<and> - (2 ^ 63) \<le> q \<and> q < 2 ^ 63
          then Inr (if q < 0 then rows else take (nat \<lfloor>q\<rfloor>) rows)
          else Inl SqliteMismatch
      | NaN \<Rightarrow> Inl SqliteMismatch
      | PosInfinity \<Rightarrow> Inl SqliteMismatch
      | NegInfinity \<Rightarrow> Inl SqliteMismatch)"

text \<open>The whole statement, run with \<^verbatim>\<open>.all(..., effective_limit)\<close>.\<close>

definition search_rows :: "db \<Rightarrow> string \<Rightarrow> number \<Rightarrow> error + search_row list" where
  "search_rows d pat limit = sqlite_limit limit (matching_rows d pat)"

definition search_entities :: "db \<Rightarrow> string \<Rightarrow> number \<Rightarrow> error + entity list" where
  "search_entities d query limit =
     (case search_rows d (search_pattern query) (effective_limit limit) of
        Inl err \<Rightarrow> Inl err
      | Inr results \<Rightarrow>
          Inr (map (\<lambda>row. \<lparr>name = sr_name row, entityType = sr_entity_type row,
                            observations = select_observations d (sr_name row)\<rparr>)
                 results))"

text \<open>
  \<^verbatim>\<open>search_nodes(query, limit = 10)\<close>: \<open>None\<close> is the call that leaves the limit out.
  The operation only reads, so it returns no store. Its \<^verbatim>\<open>catch\<close> wraps whatever the
  search throws.
\<close>

definition search_nodes ::
  "db \<Rightarrow> string \<Rightarrow> number option \<Rightarrow> error + entity list \<times> relation list" where
  "search_nodes d query limit =
     (if js_trim query = [] then Inl (NodeSearchFailed TextQueryEmpty)
      else (case search_entities d query (case limit of None \<Rightarrow> Finite 10 | Some l \<Rightarrow> l) of
              Inl err \<Rightarrow> Inl (NodeSearchFailed err)
            | Inr entities \<Rightarrow>
                if entities = [] then Inr ([], [])
                else Inr (entities, get_relations_for_entities d entities)))"

section \<open>The vector-enabled client\<close>

text \<open>
  \<^verbatim>\<open>src/db/client.ts\<close> with sqlite-vec keeps the same three tables and adds the virtual
  table \<^verbatim>\<open>entities_vec USING vec0(embedding float[1536])\<close>, whose rows are addressed by
  their own rowid. The table hands out rowids itself when an insert names none: one more
  than the largest it has handed out so far. The type \<open>'n\<close> is JavaScript's number; what
  a number becomes when it is sanitised, stored as a 32-bit float and read back is the
  parameter \<open>f32\<close> of the operations that write.
\<close>

record 'n entity_v = entity +
  embedding :: "'n list option"

record 'n vec_row =
  v_rowid :: nat
  v_embedding :: "'n list"

record 'n vdb =
  base :: db
  tbl_entities_vec :: "'n vec_row list"
  vec_seq :: nat

definition empty_vdb :: "'n vdb" where
  "empty_vdb = \<lparr>base = empty_db, tbl_entities_vec = [], vec_seq = 0\<rparr>"

definition VECTOR_DIMENSIONS :: nat where
  "VECTOR_DIMENSIONS = 1536"

definition vector_to_buffer :: "('n \<Rightarrow> 'n) \<Rightarrow> 'n list option \<Rightarrow> error + 'n list option" where
  "vector_to_buffer f32 numbers =
     (case numbers of
        None \<Rightarrow> Inr None
      | Some ns \<Rightarrow>
          if length ns \<noteq> VECTOR_DIMENSIONS then Inl (VectorDimensionMismatch (length ns))
          else Inr (Some (map f32 ns)))"

definition buffer_to_vector :: "'n list option \<Rightarrow> 'n list option" where
  "buffer_to_vector buffer = (case buffer of None \<Rightarrow> None | Some b \<Rightarrow> Some b)"

text \<open>
  \<^verbatim>\<open>SELECT rowid FROM entities_vec WHERE rowid = (SELECT rowid FROM entities WHERE name = ?)\<close>
\<close>

definition select_vec_of :: "'n vdb \<Rightarrow> string \<Rightarrow> 'n vec_row option" where
  "select_vec_of vd n =
     (case select_entity (base vd) n of
        None \<Rightarrow> None
      | Some e \<Rightarrow> find (\<lambda>v. v_rowid v = e_rowid e) (tbl_entities_vec vd))"

text \<open>
  \<^verbatim>\<open>UPDATE entities_vec SET embedding = ? WHERE rowid = (SELECT rowid FROM entities WHERE name = ?)\<close>
\<close>

definition update_vec :: "'n vdb \<Rightarrow> 'n list \<Rightarrow> string \<Rightarrow> 'n vdb" where
  "update_vec vd buf n =
     (case select_entity (base vd) n of
        None \<Rightarrow> vd
      | Some e \<Rightarrow>
          vd\<lparr>tbl_entities_vec :=
               map (\<lambda>v. if v_rowid v = e_rowid e then v\<lparr>v_embedding := buf\<rparr> else v)
                 (tbl_entities_vec vd)\<rparr>)"

text \<open>\<^verbatim>\<open>INSERT INTO entities_vec (embedding) VALUES (?)\<close>: the statement names no rowid.\<close>

definition insert_vec :: "'n vdb \<Rightarrow> 'n list \<Rightarrow> 'n vdb" where
  "insert_vec vd buf =
     (let rid = max (vec_seq vd) (fold max (map v_rowid (tbl_entities_vec vd)) 0) + 1
      in vd\<lparr>tbl_entities_vec := tbl_entities_vec vd @ [\<lparr>v_rowid = rid, v_embedding = buf\<rparr>],
            vec_seq := rid\<rparr>)"

text \<open>
  \<^verbatim>\<open>DELETE FROM entities_vec WHERE rowid = (SELECT rowid FROM entities WHERE name = ?)\<close>
\<close>

definition delete_vec :: "'n vdb \<Rightarrow> string \<Rightarrow> 'n vdb" where
  "delete_vec vd n =
     (case select_entity (base vd) n of
        None \<Rightarrow> vd
      | Some e \<Rightarrow>
          vd\<lparr>tbl_entities_vec := filter (\<lambda>v. v_rowid v \<noteq> e_rowid e) (tbl_entities_vec vd)\<rparr>)"

text \<open>
  \<^verbatim>\<open>SELECT v.embedding FROM entities_vec v INNER JOIN entities e ON v.rowid = e.rowid WHERE e.name = ?\<close>
  with \<^verbatim>\<open>.get\<close>: the first joined row or undefined.
\<close>

definition select_embedding :: "'n vdb \<Rightarrow> string \<Rightarrow> 'n list option" where
  "select_embedding vd n =
     (case [v_embedding v. v \<leftarrow> tbl_entities_vec vd, e \<leftarrow> tbl_entities (base vd),
                           v_rowid v = e_rowid e \<and> e_name e = n] of
        [] \<Rightarrow> None
      | b # bs \<Rightarrow> buffer_to_vector (Some b))"

text \<open>Handle vector embedding: the part of the loop body the text-only client lacks.\<close>

definition handle_embedding :: "('n \<Rightarrow> 'n) \<Rightarrow> 'n vdb \<Rightarrow> 'n entity_v \<Rightarrow> error + 'n vdb" where
  "handle_embedding f32 vd e =
     (case embedding e of
        None \<Rightarrow> Inr vd
      | Some ns \<Rightarrow>
          (case vector_to_buffer f32 (embedding e) of
             Inl err \<Rightarrow> Inl err
           | Inr None \<Rightarrow> Inr vd
           | Inr (Some vector_buffer) \<Rightarrow>
               (case select_vec_of vd (name e) of
                  Some existing_vec \<Rightarrow> Inr (update_vec vd vector_buffer (name e))
                | None \<Rightarrow> Inr (insert_vec vd vector_buffer))))"

definition on_base :: "(db \<Rightarrow> error + db) \<Rightarrow> 'n vdb \<Rightarrow> error + 'n vdb" where
  "on_base stmt vd = (case stmt (base vd) of Inl err \<Rightarrow> Inl err | Inr d \<Rightarrow> Inr (vd\<lparr>base := d\<rparr>))"

definition create_entities_body_vec ::
  "('n \<Rightarrow> 'n) \<Rightarrow> nat \<Rightarrow> 'n vdb \<Rightarrow> 'n entity_v \<Rightarrow> error + 'n vdb" where
  "create_entities_body_vec f32 now vd e =
     (case validate_entity e of
        Some err \<Rightarrow> Inl err
      | None \<Rightarrow>
          (case on_base (\<lambda>d. upsert_entity_row now d (name e) (entityType e)) vd of
             Inl err \<Rightarrow> Inl err
           | Inr vd1 \<Rightarrow>
               (case handle_embedding f32 vd1 e of
                  Inl err \<Rightarrow> Inl err
                | Inr vd2 \<Rightarrow>
                    on_base (\<lambda>d. replace_observations d (name e) (observations e)) vd2)))"

fun create_entities_loop_vec ::
  "('n \<Rightarrow> 'n) \<Rightarrow> nat \<Rightarrow> 'n vdb \<Rightarrow> 'n entity_v list \<Rightarrow> error + 'n vdb" where
  "create_entities_loop_vec f32 now vd [] = Inr vd"
| "create_entities_loop_vec f32 now vd (e # es) =
     (case create_entities_body_vec f32 now vd e of
        Inl err \<Rightarrow> Inl err
      | Inr vd' \<Rightarrow> create_entities_loop_vec f32 now vd' es)"

definition create_entities_vec ::
  "('n \<Rightarrow> 'n) \<Rightarrow> nat \<Rightarrow> 'n vdb \<Rightarrow> 'n entity_v list \<Rightarrow> (error + unit) \<times> 'n vdb" where
  "create_entities_vec f32 now vd entities =
     rethrow EntityOperationFailed
       (transaction (\<lambda>s. create_entities_loop_vec f32 now s entities) vd)"

definition get_entity_vec :: "'n vdb \<Rightarrow> string \<Rightarrow> error + 'n entity_v" where
  "get_entity_vec vd n =
     (case select_entity (base vd) n of
        None \<Rightarrow> Inl (EntityNotFound n)
      | Some entity_result \<Rightarrow>
          Inr \<lparr>name = e_name entity_result, entityType = e_entity_type entity_result,
               observations = select_observations (base vd) n,
               embedding = select_embedding vd n\<rparr>)"

definition delete_entity_vec :: "'n vdb \<Rightarrow> string \<Rightarrow> (error + unit) \<times> 'n vdb" where
  "delete_entity_vec vd n =
     rethrow (FailedToDeleteEntity n)
       (case select_entity (base vd) n of
          None \<Rightarrow> (Inl (EntityNotFound n), vd)
        | Some existing \<Rightarrow>
            transaction
              (\<lambda>s. on_base (\<lambda>d. delete_entity_row d n)
                      (delete_vec (s\<lparr>base := delete_relations_of
                                              (delete_observations (base s) n) n\<rparr>) n))
              vd)"

text \<open>
  The text search of this client: \<^verbatim>\<open>SELECT DISTINCT e.name, e.entity_type ... WHERE
  e.name LIKE ? OR e.entity_type LIKE ? OR o.content LIKE ?\<close> with the pattern
  \<^verbatim>\<open>%${query}%\<close>; it has no normalisation, no ordering and no limit.
\<close>

definition search_entities_vec :: "'n vdb \<Rightarrow> string \<Rightarrow> 'n entity_v list" where
  "search_entities_vec vd query =
     map (\<lambda>row. \<lparr>name = fst row, entityType = snd row,
                  observations = select_observations (base vd) (fst row),
                  embedding = select_embedding vd (fst row)\<rparr>)
       (remdups (map (\<lambda>j. (e_name (fst j), e_entity_type (fst j)))
                   (filter (where_matches (CHR ''%'' # query @ [CHR ''%'']))
                      (left_join_observations (base vd)))))"

text \<open>The branch of \<^verbatim>\<open>search_nodes\<close> that a string query takes.\<close>

definition search_nodes_vec :: "'n vdb \<Rightarrow> string \<Rightarrow> error + 'n entity_v list \<times> relation list" where
  "search_nodes_vec vd query =
     (if js_trim query = [] then Inl (NodeSearchFailed TextQueryEmpty)
      else (let entities = search_entities_vec vd query
            in if entities = [] then Inr ([], [])
               else Inr (entities, get_relations_for_entities (base vd) entities)))"

section \<open>Notions of the specification\<close>

text \<open>
  Two queries differ only in runs of white space, underscores and hyphens: they are built
  from the same characters in the same order, with a non-empty run of separators in the
  one wherever the other has one.
\<close>

inductive differ_only_in_separator_runs :: "string \<Rightarrow> string \<Rightarrow> bool" where
  sep_nil: "differ_only_in_separator_runs [] []"
| sep_char: "\<not> is_separator c \<Longrightarrow> differ_only_in_separator_runs xs ys \<Longrightarrow>
     differ_only_in_separator_runs (c # xs) (c # ys)"
| sep_run: "r1 \<noteq> [] \<Longrightarrow> r2 \<noteq> [] \<Longrightarrow> list_all is_separator r1 \<Longrightarrow> list_all is_separator r2 \<Longrightarrow>
     differ_only_in_separator_runs xs ys \<Longrightarrow>
     differ_only_in_separator_runs (r1 @ xs) (r2 @ ys)"

text \<open>A limit that is a whole number, or that lies outside 1 to 50.\<close>

definition whole_or_out_of_range :: "number \<Rightarrow> bool" where
  "whole_or_out_of_range limit =
     (case limit of
        Finite q \<Rightarrow> q < 1 \<or> 50 < q \<or> q = of_int \<lfloor>q\<rfloor>
      | NaN \<Rightarrow> False
      | PosInfinity \<Rightarrow> True
      | NegInfinity \<Rightarrow> True)"

text \<open>\<open>q\<close> is a literal substring of \<open>s\<close>.\<close>

fun starts_with :: "string \<Rightarrow> string \<Rightarrow> bool" where
  "starts_with s [] = True"
| "starts_with [] (q # qs) = False"
| "starts_with (c # cs) (q # qs) = (c = q \<and> starts_with cs qs)"

fun contains_literally :: "string \<Rightarrow> string \<Rightarrow> bool" where
  "contains_literally [] q = (q = [])"
| "contains_literally (c # cs) q = (starts_with (c # cs) q \<or> contains_literally cs q)"

text \<open>
  The validation errors of the taxonomy: the four that the checks at the head of the loop
  body of \<open>create_entities\<close> raise.
\<close>

fun is_validation_error :: "error \<Rightarrow> bool" where
  "is_validation_error EntityNameInvalid = True"
| "is_validation_error (InvalidEntityType n) = True"
| "is_validation_error (NoObservations n) = True"
| "is_validation_error (InvalidObservations n) = True"
| "is_validation_error err = False"

section \<open>Example stores\<close>

definition two_entities :: db where
  "two_entities =
     \<lparr>tbl_entities = [\<lparr>e_rowid = 1, e_name = ''A'', e_entity_type = ''person'', e_created_at = 1\<rparr>,
                      \<lparr>e_rowid = 2, e_name = ''B'', e_entity_type = ''person'', e_created_at = 1\<rparr>],
      tbl_observations = [\<lparr>o_entity_name = ''A'', o_content = ''likes tea''\<rparr>,
                          \<lparr>o_entity_name = ''B'', o_content = ''likes coffee''\<rparr>],
      tbl_relations = []\<rparr>"

definition a_knows_b :: relation where
  "a_knows_b = \<lparr>rel_from = ''A'', rel_to = ''B'', relationType = ''knows''\<rparr>"

definition b_knows_a :: relation where
  "b_knows_a = \<lparr>rel_from = ''B'', rel_to = ''A'', relationType = ''knows''\<rparr>"

definition a_knows_c :: relation where
  "a_knows_c = \<lparr>rel_from = ''A'', rel_to = ''C'', relationType = ''knows''\<rparr>"

definition two_entities_vec :: "int vdb" where
  "two_entities_vec =
     \<lparr>base = two_entities,
      tbl_entities_vec = [\<lparr>v_rowid = 1, v_embedding = replicate 1536 3\<rparr>],
      vec_seq = 1\<rparr>"

definition a_new :: entity where
  "a_new = \<lparr>name = ''A'', entityType = ''person'', observations = [''likes milk'', ''is tall'']\<rparr>"

definition b_new :: entity where
  "b_new = \<lparr>name = ''B'', entityType = ''person'', observations = [''likes water'']\<rparr>"

definition blank_type :: entity where
  "blank_type = \<lparr>name = ''C'', entityType = '' '', observations = [''is new'']\<rparr>"

definition with_embedding :: "entity \<Rightarrow> 'n list option \<Rightarrow> 'n entity_v" where
  "with_embedding e emb =
     \<lparr>name = name e, entityType = entityType e, observations = observations e, embedding = emb\<rparr>"

definition entity_a :: entity where
  "entity_a = \<lparr>name = ''A'', entityType = ''person'', observations = [''likes tea'']\<rparr>"

definition entity_b :: entity where
  "entity_b = \<lparr>name = ''B'', entityType = ''person'', observations = [''likes coffee'']\<rparr>"

definition foo_db :: db where
  "foo_db =
     \<lparr>tbl_entities =
        [\<lparr>e_rowid = 1, e_name = ''Z'', e_entity_type = ''note'', e_created_at = 30\<rparr>,
         \<lparr>e_rowid = 2, e_name = ''Y'', e_entity_type = ''foo kind'', e_created_at = 20\<rparr>,
         \<lparr>e_rowid = 3, e_name = ''X foo'', e_entity_type = ''note'', e_created_at = 10\<rparr>,
         \<lparr>e_rowid = 4, e_name = ''V'', e_entity_type = ''note'', e_created_at = 40\<rparr>,
         \<lparr>e_rowid = 5, e_name = ''Foo W'', e_entity_type = ''foo kind'', e_created_at = 50\<rparr>],
      tbl_observations =
        [\<lparr>o_entity_name = ''Z'', o_content = ''mentions foo once''\<rparr>,
         \<lparr>o_entity_name = ''Z'', o_content = ''mentions FOO twice''\<rparr>,
         \<lparr>o_entity_name = ''Y'', o_content = ''plain''\<rparr>,
         \<lparr>o_entity_name = ''X foo'', o_content = ''plain''\<rparr>,
         \<lparr>o_entity_name = ''V'', o_content = ''plain''\<rparr>,
         \<lparr>o_entity_name = ''Foo W'', o_content = ''plain''\<rparr>],
      tbl_relations = []\<rparr>"

definition foo_rows :: "search_row list" where
  "foo_rows =
     [\<lparr>sr_name = ''Foo W'', sr_entity_type = ''foo kind'', sr_created_at = 50, relevance_score = 3\<rparr>,
      \<lparr>sr_name = ''X foo'', sr_entity_type = ''note'', sr_created_at = 10, relevance_score = 3\<rparr>,
      \<lparr>sr_name = ''Y'', sr_entity_type = ''foo kind'', sr_created_at = 20, relevance_score = 2\<rparr>,
      \<lparr>sr_name = ''Z'', sr_entity_type = ''note'', sr_created_at = 30, relevance_score = 1\<rparr>]"

definition web_db :: db where
  "web_db =
     \<lparr>tbl_entities =
        [\<lparr>e_rowid = 1, e_name = ''site'', e_entity_type = ''web_development'', e_created_at = 10\<rparr>,
         \<lparr>e_rowid = 2, e_name = ''shop'', e_entity_type = ''web development'', e_created_at = 20\<rparr>,
         \<lparr>e_rowid = 3, e_name = ''farm'', e_entity_type = ''agriculture'', e_created_at = 30\<rparr>],
      tbl_observations =
        [\<lparr>o_entity_name = ''site'', o_content = ''static pages''\<rparr>,
         \<lparr>o_entity_name = ''shop'', o_content = ''sells shoes''\<rparr>,
         \<lparr>o_entity_name = ''farm'', o_content = ''grows wheat''\<rparr>],
      tbl_relations = []\<rparr>"

definition axxb_db :: db where
  "axxb_db =
     \<lparr>tbl_entities =
        [\<lparr>e_rowid = 1, e_name = ''axxb'', e_entity_type = ''word'', e_created_at = 10\<rparr>],
      tbl_observations = [\<lparr>o_entity_name = ''axxb'', o_content = ''four letters''\<rparr>],
      tbl_relations = []\<rparr>"

definition axxb_vdb :: "int vdb" where
  "axxb_vdb = \<lparr>base = axxb_db, tbl_entities_vec = [], vec_seq = 0\<rparr>"

definition web_vdb :: "int vdb" where
  "web_vdb = \<lparr>base = web_db, tbl_entities_vec = [], vec_seq = 0\<rparr>"





section \<open>Relations: uniqueness and foreign keys\<close>


lemma select_entity_None_iff: "select_entity d n = None \<longleftrightarrow> n \<notin> e_name ` set (tbl_entities d)"
  by (auto simp: select_entity_def find_None_iff)

lemma stored_iff: "list_ex (same_triple r) (tbl_relations d) \<longleftrightarrow>
    (rel_from r, rel_to r, relationType r) \<in> triple_of ` set (tbl_relations d)"
  by (force simp: list_ex_iff same_triple_def triple_of_def image_iff)

lemma insert_or_ignore_error:
  "insert_or_ignore_relation now d r = Inl err \<Longrightarrow> err = SqliteConstraintForeignKey"
  by (auto simp: insert_or_ignore_relation_def split: if_splits)

lemma insert_or_ignore_entities:
  "insert_or_ignore_relation now d r = Inr d' \<Longrightarrow> tbl_entities d' = tbl_entities d"
  by (auto simp: insert_or_ignore_relation_def split: if_splits)

lemma insert_or_ignore_observations:
  "insert_or_ignore_relation now d r = Inr d' \<Longrightarrow> tbl_observations d' = tbl_observations d"
  by (auto simp: insert_or_ignore_relation_def split: if_splits)

lemma insert_or_ignore_stored:
  "list_ex (same_triple r) (tbl_relations d) \<Longrightarrow> insert_or_ignore_relation now d r = Inr d"
  by (simp add: insert_or_ignore_relation_def)

lemma insert_or_ignore_triples:
  "insert_or_ignore_relation now d r = Inr d' \<Longrightarrow>
     triple_of ` set (tbl_relations d') \<subseteq>
       triple_of ` set (tbl_relations d) \<union>
       {t. fst t \<in> e_name ` set (tbl_entities d) \<and> fst (snd t) \<in> e_name ` set (tbl_entities d)}"
  by (auto simp: insert_or_ignore_relation_def select_entity_None_iff triple_of_def
           split: if_splits)

lemma insert_or_ignore_distinct:
  assumes "insert_or_ignore_relation now d r = Inr d'"
      and "distinct (map triple_of (tbl_relations d))"
  shows "distinct (map triple_of (tbl_relations d'))"
  using assms
  by (auto simp: insert_or_ignore_relation_def stored_iff triple_of_def split: if_splits)

lemma loop_distinct:
  "create_relations_loop now d rs = Inr d' \<Longrightarrow> distinct (map triple_of (tbl_relations d)) \<Longrightarrow>
     distinct (map triple_of (tbl_relations d'))"
proof (induction rs arbitrary: d)
  case Nil
  then show ?case by simp
next
  case (Cons r rs)
  then show ?case
    by (auto split: sum.splits dest: insert_or_ignore_distinct)
qed

lemma loop_stored:
  "list_all (\<lambda>r. list_ex (same_triple r) (tbl_relations d)) rs \<Longrightarrow>
     create_relations_loop now d rs = Inr d"
  by (induction rs) (auto simp: insert_or_ignore_stored)

lemma create_relations_distinct:
  assumes "distinct (map triple_of (tbl_relations d))"
  shows "distinct (map triple_of (tbl_relations (snd (create_relations now d rs))))"
  using assms
  by (auto simp: create_relations_def rethrow_def transaction_def split: sum.splits
           dest: loop_distinct)

lemma calls_distinct:
  "distinct (map triple_of (tbl_relations d)) \<Longrightarrow>
     distinct (map triple_of (tbl_relations (create_relations_calls d calls)))"
  by (induction calls arbitrary: d) (auto simp: create_relations_distinct)

lemma create_relations_stored:
  "list_all (\<lambda>r. list_ex (same_triple r) (tbl_relations d)) rs \<Longrightarrow>
     create_relations now d rs = (Inr (), d)"
  by (simp add: create_relations_def rethrow_def transaction_def loop_stored)

lemma relations_loop_append:
  "create_relations_loop now d (xs @ ys) =
     (case create_relations_loop now d xs of
        Inl err \<Rightarrow> Inl err
      | Inr d' \<Rightarrow> create_relations_loop now d' ys)"
  by (induction xs arbitrary: d) (auto split: sum.splits)

lemma insert_or_ignore_keeps_stored:
  "insert_or_ignore_relation now d x = Inr d' \<Longrightarrow> list_ex (same_triple r) (tbl_relations d) \<Longrightarrow>
     list_ex (same_triple r) (tbl_relations d')"
  by (auto simp: insert_or_ignore_relation_def split: if_splits)

lemma loop_keeps_stored:
  "create_relations_loop now d xs = Inr d' \<Longrightarrow> list_ex (same_triple r) (tbl_relations d) \<Longrightarrow>
     list_ex (same_triple r) (tbl_relations d')"
proof (induction xs arbitrary: d)
  case Nil
  then show ?case by simp
next
  case (Cons x xs)
  from Cons.prems(1) obtain d1 where d1: "insert_or_ignore_relation now d x = Inr d1"
    and rest: "create_relations_loop now d1 xs = Inr d'"
    by (auto split: sum.splits)
  from Cons.IH [OF rest insert_or_ignore_keeps_stored [OF d1 Cons.prems(2)]] show ?case .
qed

lemma loop_skips_stored:
  assumes "list_ex (same_triple r) (tbl_relations d)"
  shows "create_relations_loop now d (pre @ r # post) = create_relations_loop now d (pre @ post)"
proof (cases "create_relations_loop now d pre")
  case (Inl err)
  then show ?thesis by (simp add: relations_loop_append)
next
  case (Inr d1)
  from loop_keeps_stored [OF Inr assms] have "insert_or_ignore_relation now d1 r = Inr d1"
    by (rule insert_or_ignore_stored)
  with Inr show ?thesis by (simp add: relations_loop_append)
qed

lemma create_relations_skips_stored:
  assumes "list_ex (same_triple r) (tbl_relations d)"
  shows "create_relations now d (pre @ r # post) = create_relations now d (pre @ post)"
proof (cases "pre @ post = []")
  case True
  with assms show ?thesis
    by (simp add: create_relations_def rethrow_def transaction_def insert_or_ignore_stored)
next
  case False
  have a: "(pre @ r # post = []) = False" by simp
  have b: "(pre @ post = []) = False" using False by simp
  show ?thesis
    unfolding create_relations_def a b if_False transaction_def loop_skips_stored [OF assms] ..
qed

text \<open>
  Claim C3. Starting from a store whose relations carry pairwise different triples (the
  empty store, say), after any sequence of \<open>create_relations\<close> calls the stored
  relations still carry pairwise different triples. A call whose triples are all stored
  already returns without error and leaves the store as it was, so the row written first
  stays; and in any batch a triple that is stored already can be left out without
  changing what the call returns or the store it leaves.
\<close>

theorem create_relations_idempotent:
  assumes "distinct (map triple_of (tbl_relations d))"
      and "d' = create_relations_calls d calls"
      and "list_all (\<lambda>r. list_ex (same_triple r) (tbl_relations d')) rs"
  shows "distinct (map triple_of (tbl_relations d')) \<and>
         create_relations now d' rs = (Inr (), d') \<and>
         (list_ex (same_triple r) (tbl_relations d') \<longrightarrow>
            create_relations now d' (pre @ r # post) = create_relations now d' (pre @ post))"
  using assms by (simp add: calls_distinct create_relations_stored create_relations_skips_stored)

lemma calls_example:
  "create_relations_calls two_entities [(2, [a_knows_b]), (3, [a_knows_b, a_knows_b])] =
     two_entities\<lparr>tbl_relations := [\<lparr>source = ''A'', target = ''B'', relation_type = ''knows'',
                                        r_created_at = 2\<rparr>]\<rparr>"
  by (simp add: two_entities_def a_knows_b_def create_relations_def rethrow_def transaction_def
        insert_or_ignore_relation_def same_triple_def select_entity_def)

theorem create_relations_idempotent_witness:
  "map triple_of (tbl_relations
      (create_relations_calls two_entities [(2, [a_knows_b]), (3, [a_knows_b, a_knows_b])])) =
     [(''A'', ''B'', ''knows'')] \<and>
   create_relations 4
      (create_relations_calls two_entities [(2, [a_knows_b]), (3, [a_knows_b, a_knows_b])])
      [a_knows_b] =
     (Inr (), two_entities\<lparr>tbl_relations := [\<lparr>source = ''A'', target = ''B'',
                              relation_type = ''knows'', r_created_at = 2\<rparr>]\<rparr>) \<and>
   create_relations 4
      (create_relations_calls two_entities [(2, [a_knows_b]), (3, [a_knows_b, a_knows_b])])
      [b_knows_a, a_knows_b] =
   create_relations 4
      (create_relations_calls two_entities [(2, [a_knows_b]), (3, [a_knows_b, a_knows_b])])
      [b_knows_a]"
proof -
  let ?d' = "create_relations_calls two_entities [(2, [a_knows_b]), (3, [a_knows_b, a_knows_b])]"
  have h1: "distinct (map triple_of (tbl_relations two_entities))"
    by (simp add: two_entities_def)
  have h3: "list_all (\<lambda>r. list_ex (same_triple r) (tbl_relations ?d')) [a_knows_b]"
    unfolding calls_example by (simp add: same_triple_def a_knows_b_def)
  then have h4: "list_ex (same_triple a_knows_b) (tbl_relations ?d')" by simp
  from create_relations_idempotent [OF h1 refl h3, of 4 a_knows_b "[b_knows_a]" "[]"] h4
  show ?thesis unfolding calls_example by (simp add: triple_of_def)
qed

lemma loop_ok:
  "list_all (\<lambda>r. select_entity d (rel_from r) \<noteq> None \<and> select_entity d (rel_to r) \<noteq> None) rs \<Longrightarrow>
     \<exists>d'. create_relations_loop now d rs = Inr d'"
proof (induction rs arbitrary: d)
  case Nil
  then show ?case by simp
next
  case (Cons r rs)
  from Cons.prems have "\<exists>d1. insert_or_ignore_relation now d r = Inr d1"
    by (auto simp: insert_or_ignore_relation_def)
  then obtain d1 where d1: "insert_or_ignore_relation now d r = Inr d1" ..
  then have "tbl_entities d1 = tbl_entities d" by (rule insert_or_ignore_entities)
  then have "select_entity d1 = select_entity d" by (simp add: select_entity_def fun_eq_iff)
  with Cons.prems have "list_all (\<lambda>r. select_entity d1 (rel_from r) \<noteq> None \<and>
      select_entity d1 (rel_to r) \<noteq> None) rs" by simp
  from Cons.IH [OF this] d1 show ?case by simp
qed

lemma loop_foreign_key:
  "r \<in> set rs \<Longrightarrow> \<not> list_ex (same_triple r) (tbl_relations d) \<Longrightarrow>
   select_entity d (rel_from r) = None \<or> select_entity d (rel_to r) = None \<Longrightarrow>
     create_relations_loop now d rs = Inl SqliteConstraintForeignKey"
proof (induction rs arbitrary: d)
  case Nil
  then show ?case by simp
next
  case (Cons x rs)
  show ?case
  proof (cases "insert_or_ignore_relation now d x")
    case (Inl err)
    then show ?thesis by (simp add: insert_or_ignore_error)
  next
    case (Inr d1)
    have ents: "tbl_entities d1 = tbl_entities d" using Inr by (rule insert_or_ignore_entities)
    then have sel: "select_entity d1 = select_entity d" by (simp add: select_entity_def fun_eq_iff)
    have "x \<noteq> r" using Inr Cons.prems(2,3)
      by (auto simp: insert_or_ignore_relation_def split: if_splits)
    then have mem: "r \<in> set rs" using Cons.prems(1) by simp
    have "\<not> list_ex (same_triple r) (tbl_relations d1)"
      using Inr Cons.prems(2,3)
      by (auto simp: insert_or_ignore_relation_def stored_iff triple_of_def split: if_splits)
    from Cons.IH [OF mem this] Cons.prems(3) sel Inr show ?thesis by simp
  qed
qed

text \<open>
  Claim C9, as amended. \<open>create_relations\<close> succeeds on every batch whose triples all
  name existing entities as source and as target. A batch with a triple that is not
  stored yet and whose source or target names no entity fails with the foreign key
  error, and the store is left as it was.
\<close>

theorem create_relations_foreign_keys:
  "(list_all (\<lambda>r. select_entity d (rel_from r) \<noteq> None \<and> select_entity d (rel_to r) \<noteq> None) rs
      \<longrightarrow> fst (create_relations now d rs) = Inr ()) \<and>
   (r \<in> set rs \<and> \<not> list_ex (same_triple r) (tbl_relations d) \<and>
    (select_entity d (rel_from r) = None \<or> select_entity d (rel_to r) = None)
      \<longrightarrow> create_relations now d rs =
            (Inl (FailedToCreateRelations SqliteConstraintForeignKey), d))"
proof (intro conjI impI)
  assume "list_all (\<lambda>r. select_entity d (rel_from r) \<noteq> None \<and> select_entity d (rel_to r) \<noteq> None) rs"
  from loop_ok [OF this, of now] show "fst (create_relations now d rs) = Inr ()"
    by (auto simp: create_relations_def rethrow_def transaction_def)
next
  assume a: "r \<in> set rs \<and> \<not> list_ex (same_triple r) (tbl_relations d) \<and>
    (select_entity d (rel_from r) = None \<or> select_entity d (rel_to r) = None)"
  then have "rs \<noteq> []" by auto
  moreover from a have "create_relations_loop now d rs = Inl SqliteConstraintForeignKey"
    by (intro loop_foreign_key) auto
  ultimately show "create_relations now d rs =
      (Inl (FailedToCreateRelations SqliteConstraintForeignKey), d)"
    by (simp add: create_relations_def rethrow_def transaction_def)
qed

text \<open>
  Claim C9 as stated fails: on the empty store the relation from \<open>A\<close> to \<open>B\<close> is
  refused, because neither endpoint names an entity.
\<close>

theorem create_relations_dangling_counterexample:
  "create_relations 0 empty_db [a_knows_b] =
     (Inl (FailedToCreateRelations SqliteConstraintForeignKey), empty_db)"
  by (simp add: create_relations_def rethrow_def transaction_def insert_or_ignore_relation_def
        empty_db_def a_knows_b_def select_entity_def)

theorem create_relations_foreign_keys_witness:
  "fst (create_relations 2 two_entities [a_knows_b]) = Inr () \<and>
   create_relations 2 two_entities [a_knows_b, a_knows_c] =
     (Inl (FailedToCreateRelations SqliteConstraintForeignKey), two_entities)"
proof -
  have ok: "list_all (\<lambda>r. select_entity two_entities (rel_from r) \<noteq> None \<and>
      select_entity two_entities (rel_to r) \<noteq> None) [a_knows_b]"
    by (simp add: two_entities_def a_knows_b_def select_entity_def)
  have bad: "a_knows_c \<in> set [a_knows_b, a_knows_c] \<and>
      \<not> list_ex (same_triple a_knows_c) (tbl_relations two_entities) \<and>
      (select_entity two_entities (rel_from a_knows_c) = None \<or>
       select_entity two_entities (rel_to a_knows_c) = None)"
    by (simp add: two_entities_def a_knows_c_def select_entity_def)
  from create_relations_foreign_keys [of two_entities "[a_knows_b]" 2 a_knows_c] ok
  have 1: "fst (create_relations 2 two_entities [a_knows_b]) = Inr ()" by blast
  from create_relations_foreign_keys [of two_entities "[a_knows_b, a_knows_c]" 2 a_knows_c] bad
  have 2: "create_relations 2 two_entities [a_knows_b, a_knows_c] =
     (Inl (FailedToCreateRelations SqliteConstraintForeignKey), two_entities)" by blast
  from 1 2 show ?thesis by simp
qed


section \<open>Entities: upsert, validation, delete\<close>

subsection \<open>Statements on single tables\<close>

lemma select_entity_Some_name: "select_entity d n = Some r \<Longrightarrow> e_name r = n"
  by (auto simp: select_entity_def dest: find_Some_iff [THEN iffD1])

lemma select_entity_update:
  "select_entity (update_entity_type d t n) m =
     map_option (\<lambda>r. if e_name r = n then r\<lparr>e_entity_type := t\<rparr> else r) (select_entity d m)"
proof -
  have "find (\<lambda>r. e_name r = m) (map (\<lambda>r. if e_name r = n then r\<lparr>e_entity_type := t\<rparr> else r) rows) =
      map_option (\<lambda>r. if e_name r = n then r\<lparr>e_entity_type := t\<rparr> else r)
        (find (\<lambda>r. e_name r = m) rows)" for rows
    by (induction rows) auto
  then show ?thesis by (simp add: select_entity_def update_entity_type_def)
qed

lemma find_append:
  "find P (xs @ ys) = (case find P xs of None \<Rightarrow> find P ys | Some x \<Rightarrow> Some x)"
  by (induction xs) auto

lemma select_entity_insert:
  "insert_entity now d n t = Inr d' \<Longrightarrow>
     select_entity d' m =
       (if m = n then Some \<lparr>e_rowid = next_rowid (map e_rowid (tbl_entities d)), e_name = n,
                            e_entity_type = t, e_created_at = now\<rparr>
        else select_entity d m)"
  by (auto simp: insert_entity_def select_entity_def find_append split: if_splits option.splits)

lemma upsert_entity_row_total: "\<exists>d'. upsert_entity_row now d n t = Inr d'"
  by (auto simp: upsert_entity_row_def insert_entity_def split: option.splits)

lemma upsert_entity_row_tables:
  "upsert_entity_row now d n t = Inr d' \<Longrightarrow>
     tbl_observations d' = tbl_observations d \<and> tbl_relations d' = tbl_relations d"
  by (auto simp: upsert_entity_row_def insert_entity_def update_entity_type_def
           split: option.splits if_splits)

lemma upsert_entity_row_same:
  "upsert_entity_row now d n t = Inr d' \<Longrightarrow>
     \<exists>r. select_entity d' n = Some r \<and> e_name r = n \<and> e_entity_type r = t"
  by (auto simp: upsert_entity_row_def select_entity_update select_entity_insert
           dest: select_entity_Some_name split: option.splits)

lemma select_entity_update_other:
  "m \<noteq> n \<Longrightarrow> select_entity (update_entity_type d t n) m = select_entity d m"
  by (cases "select_entity d m") (auto simp: select_entity_update dest: select_entity_Some_name)

lemma upsert_entity_row_other:
  "upsert_entity_row now d n t = Inr d' \<Longrightarrow> m \<noteq> n \<Longrightarrow> select_entity d' m = select_entity d m"
  by (auto simp: upsert_entity_row_def select_entity_update_other select_entity_insert
           split: option.splits)

lemma insert_observations_eq:
  "select_entity d n \<noteq> None \<Longrightarrow>
     insert_observations d n cs =
       Inr (d\<lparr>tbl_observations := tbl_observations d @
                 map (\<lambda>c. \<lparr>o_entity_name = n, o_content = c\<rparr>) cs\<rparr>)"
proof (induction cs arbitrary: d)
  case Nil
  then show ?case by simp
next
  case (Cons c cs)
  let ?d1 = "d\<lparr>tbl_observations := tbl_observations d @ [\<lparr>o_entity_name = n, o_content = c\<rparr>]\<rparr>"
  have "select_entity ?d1 n \<noteq> None" using Cons.prems by (simp add: select_entity_def)
  from Cons.IH [OF this] Cons.prems show ?case
    by (simp add: insert_observation_def)
qed

lemma replace_observations_eq:
  "select_entity d n \<noteq> None \<Longrightarrow>
     replace_observations d n obs =
       Inr (d\<lparr>tbl_observations := filter (\<lambda>r. o_entity_name r \<noteq> n) (tbl_observations d) @
                 map (\<lambda>c. \<lparr>o_entity_name = n, o_content = c\<rparr>) obs\<rparr>)"
proof -
  assume "select_entity d n \<noteq> None"
  then have "select_entity (delete_observations d n) n \<noteq> None"
    by (simp add: select_entity_def delete_observations_def)
  from insert_observations_eq [OF this]
  show ?thesis by (simp add: replace_observations_def delete_observations_def)
qed

subsection \<open>The loop body\<close>

lemma body_invalid: "validate_entity e = Some err \<Longrightarrow> create_entities_body now d e = Inl err"
  by (simp add: create_entities_body_def)

lemma body_eq:
  assumes "validate_entity e = None"
  shows "\<exists>d1. upsert_entity_row now d (name e) (entityType e) = Inr d1 \<and>
     create_entities_body now d e =
       Inr (d1\<lparr>tbl_observations :=
                 filter (\<lambda>r. o_entity_name r \<noteq> name e) (tbl_observations d) @
                 map (\<lambda>c. \<lparr>o_entity_name = name e, o_content = c\<rparr>) (observations e)\<rparr>)"
proof -
  obtain d1 where d1: "upsert_entity_row now d (name e) (entityType e) = Inr d1"
    using upsert_entity_row_total by blast
  from upsert_entity_row_same [OF d1] have "select_entity d1 (name e) \<noteq> None" by auto
  from replace_observations_eq [OF this] d1 assms upsert_entity_row_tables [OF d1]
  show ?thesis by (simp add: create_entities_body_def)
qed

lemma body_total: "validate_entity e = None \<Longrightarrow> \<exists>d'. create_entities_body now d e = Inr d'"
  using body_eq by blast

lemma body_valid: "create_entities_body now d e = Inr d' \<Longrightarrow> validate_entity e = None"
  by (auto simp: create_entities_body_def split: option.splits)

lemma body_observations_same:
  assumes "create_entities_body now d e = Inr d'"
  shows "select_observations d' (name e) = observations e"
proof -
  from body_eq [OF body_valid [OF assms], of now d] assms
  show ?thesis by (auto simp: select_observations_def comp_def)
qed

lemma body_observations_other:
  assumes "create_entities_body now d e = Inr d'" and "m \<noteq> name e"
  shows "select_observations d' m = select_observations d m"
proof -
  have "filter (\<lambda>r. o_entity_name r = m) (filter (\<lambda>r. o_entity_name r \<noteq> name e) rows) =
      filter (\<lambda>r. o_entity_name r = m) rows" for rows :: "observation_row list"
    using assms(2) by (induction rows) auto
  with body_eq [OF body_valid [OF assms(1)], of now d] assms
  show ?thesis by (auto simp: select_observations_def)
qed

lemma body_entity_same:
  assumes "create_entities_body now d e = Inr d'"
  shows "\<exists>r. select_entity d' (name e) = Some r \<and> e_name r = name e \<and>
             e_entity_type r = entityType e"
proof -
  from body_eq [OF body_valid [OF assms], of now d] assms obtain d1
    where d1: "upsert_entity_row now d (name e) (entityType e) = Inr d1"
      and d': "tbl_entities d' = tbl_entities d1" by auto
  from d' have "select_entity d' = select_entity d1" by (simp add: select_entity_def fun_eq_iff)
  with upsert_entity_row_same [OF d1] show ?thesis by simp
qed

lemma body_entity_other:
  assumes "create_entities_body now d e = Inr d'" and "m \<noteq> name e"
  shows "select_entity d' m = select_entity d m"
proof -
  from body_eq [OF body_valid [OF assms(1)], of now d] assms obtain d1
    where d1: "upsert_entity_row now d (name e) (entityType e) = Inr d1"
      and d': "tbl_entities d' = tbl_entities d1" by auto
  from d' have "select_entity d' = select_entity d1" by (simp add: select_entity_def fun_eq_iff)
  with upsert_entity_row_other [OF d1 assms(2)] show ?thesis by simp
qed

subsection \<open>The loop\<close>

lemma loop_append:
  "create_entities_loop now d (xs @ ys) =
     (case create_entities_loop now d xs of
        Inl err \<Rightarrow> Inl err
      | Inr d' \<Rightarrow> create_entities_loop now d' ys)"
  by (induction xs arbitrary: d) (auto split: sum.splits)

lemma loop_total:
  "list_all (\<lambda>x. validate_entity x = None) es \<Longrightarrow> \<exists>d'. create_entities_loop now d es = Inr d'"
proof (induction es arbitrary: d)
  case Nil
  then show ?case by simp
next
  case (Cons e es)
  then obtain d1 where "create_entities_body now d e = Inr d1"
    using body_total [of e now d] by auto
  with Cons show ?case by simp
qed

lemma loop_keeps_other:
  "create_entities_loop now d es = Inr d' \<Longrightarrow> list_all (\<lambda>x. name x \<noteq> n) es \<Longrightarrow>
     select_observations d' n = select_observations d n \<and> select_entity d' n = select_entity d n"
proof (induction es arbitrary: d)
  case Nil
  then show ?case by simp
next
  case (Cons e es)
  from Cons.prems(1) obtain d1 where d1: "create_entities_body now d e = Inr d1"
    and rest: "create_entities_loop now d1 es = Inr d'"
    by (auto split: sum.splits)
  from Cons.prems(2) have ne: "n \<noteq> name e" and others: "list_all (\<lambda>x. name x \<noteq> n) es" by auto
  from Cons.IH [OF rest others] body_observations_other [OF d1 ne] body_entity_other [OF d1 ne]
  show ?case by simp
qed

lemma validate_entity_kind: "validate_entity e = Some err \<Longrightarrow> is_validation_error err"
  by (auto simp: validate_entity_def split: if_splits)

lemma loop_invalid:
  "list_ex (\<lambda>x. validate_entity x \<noteq> None) es \<Longrightarrow>
     \<exists>err. create_entities_loop now d es = Inl err \<and> is_validation_error err"
proof (induction es arbitrary: d)
  case Nil
  then show ?case by simp
next
  case (Cons e es)
  show ?case
  proof (cases "validate_entity e")
    case None
    then obtain d1 where d1: "create_entities_body now d e = Inr d1"
      using body_total by blast
    from None Cons.prems have "list_ex (\<lambda>x. validate_entity x \<noteq> None) es" by simp
    from Cons.IH [OF this, of d1] d1 show ?thesis by simp
  next
    case (Some err)
    then show ?thesis by (simp add: body_invalid validate_entity_kind)
  qed
qed

lemma validate_entity_None_iff:
  "validate_entity e = None \<longleftrightarrow>
     js_trim (name e) \<noteq> [] \<and> js_trim (entityType e) \<noteq> [] \<and> observations e \<noteq> [] \<and>
     list_all (\<lambda>obs. js_trim obs \<noteq> []) (observations e)"
  by (auto simp: validate_entity_def js_trim_def)

lemma claimed_invalid:
  "js_trim (name e) = [] \<or> js_trim (entityType e) = [] \<or> observations e = [] \<or>
   list_ex (\<lambda>obs. js_trim obs = []) (observations e) \<Longrightarrow> validate_entity e \<noteq> None"
  by (auto simp: validate_entity_None_iff list_all_iff list_ex_iff)

lemma loop_result:
  assumes "create_entities_loop now d (pre @ e # post) = Inr d'"
      and "list_all (\<lambda>x. name x \<noteq> name e) post"
  shows "select_observations d' (name e) = observations e \<and>
         (\<exists>r. select_entity d' (name e) = Some r \<and> e_name r = name e \<and>
              e_entity_type r = entityType e)"
proof -
  from assms(1) obtain d1 d2 where
      "create_entities_loop now d pre = Inr d1"
      and body: "create_entities_body now d1 e = Inr d2"
      and rest: "create_entities_loop now d2 post = Inr d'"
    by (auto simp: loop_append split: sum.splits)
  from loop_keeps_other [OF rest assms(2)] body_observations_same [OF body]
    body_entity_same [OF body]
  show ?thesis by simp
qed

subsection \<open>The vector-enabled client\<close>

lemma handle_embedding_base: "handle_embedding f32 vd e = Inr vd' \<Longrightarrow> base vd' = base vd"
  by (auto simp: handle_embedding_def update_vec_def insert_vec_def Let_def
           split: option.splits sum.splits)

lemma handle_embedding_error:
  "handle_embedding f32 vd e = Inl err \<Longrightarrow> \<exists>k. err = VectorDimensionMismatch k"
  by (auto simp: handle_embedding_def vector_to_buffer_def split: option.splits sum.splits if_splits)

lemma handle_embedding_total:
  "(case embedding e of None \<Rightarrow> True | Some ns \<Rightarrow> length ns = VECTOR_DIMENSIONS) \<Longrightarrow>
     \<exists>vd'. handle_embedding f32 vd e = Inr vd'"
  by (auto simp: handle_embedding_def vector_to_buffer_def split: option.splits sum.splits)

lemma body_vec_invalid:
  "validate_entity e = Some err \<Longrightarrow> create_entities_body_vec f32 now vd e = Inl err"
  by (simp add: create_entities_body_vec_def)

lemma body_vec_base:
  assumes "create_entities_body_vec f32 now vd e = Inr vd'"
  shows "create_entities_body now (base vd) e = Inr (base vd')"
  using assms
  by (auto simp: create_entities_body_vec_def create_entities_body_def on_base_def
           dest!: handle_embedding_base split: option.splits sum.splits)

lemma body_vec_error:
  assumes "create_entities_body_vec f32 now vd e = Inl err"
  shows "is_validation_error err \<or> (\<exists>k. err = VectorDimensionMismatch k)"
proof (cases "validate_entity e")
  case (Some verr)
  with assms show ?thesis by (auto simp: body_vec_invalid validate_entity_kind)
next
  case None
  obtain d1 where d1: "upsert_entity_row now (base vd) (name e) (entityType e) = Inr d1"
    using upsert_entity_row_total by blast
  show ?thesis
  proof (cases "handle_embedding f32 (vd\<lparr>base := d1\<rparr>) e")
    case (Inl herr)
    with assms None d1 have "err = herr"
      by (simp add: create_entities_body_vec_def on_base_def)
    with handle_embedding_error [OF Inl] show ?thesis by simp
  next
    case (Inr vd2)
    from handle_embedding_base [OF Inr] have b: "base vd2 = d1" by simp
    from upsert_entity_row_same [OF d1] have "select_entity (base vd2) (name e) \<noteq> None"
      using b by auto
    from replace_observations_eq [OF this, of "observations e"] assms None d1 Inr
    show ?thesis by (simp add: create_entities_body_vec_def on_base_def)
  qed
qed

lemma body_vec_total:
  assumes "validate_entity e = None"
      and "case embedding e of None \<Rightarrow> True | Some ns \<Rightarrow> length ns = VECTOR_DIMENSIONS"
  shows "\<exists>vd'. create_entities_body_vec f32 now vd e = Inr vd'"
proof -
  obtain d1 where d1: "upsert_entity_row now (base vd) (name e) (entityType e) = Inr d1"
    using upsert_entity_row_total by blast
  obtain vd2 where vd2: "handle_embedding f32 (vd\<lparr>base := d1\<rparr>) e = Inr vd2"
    using handle_embedding_total [OF assms(2)] by blast
  from handle_embedding_base [OF vd2] have b: "base vd2 = d1" by simp
  from upsert_entity_row_same [OF d1] have "select_entity (base vd2) (name e) \<noteq> None"
    using b by auto
  from replace_observations_eq [OF this, of "observations e"] assms(1) d1 vd2
  show ?thesis by (simp add: create_entities_body_vec_def on_base_def)
qed

lemma loop_vec_base:
  "create_entities_loop_vec f32 now vd es = Inr vd' \<Longrightarrow>
     create_entities_loop now (base vd) es = Inr (base vd')"
proof (induction es arbitrary: vd)
  case Nil
  then show ?case by simp
next
  case (Cons e es)
  from Cons.prems obtain vd1 where b: "create_entities_body_vec f32 now vd e = Inr vd1"
    and rest: "create_entities_loop_vec f32 now vd1 es = Inr vd'"
    by (auto split: sum.splits)
  from body_vec_base [OF b] Cons.IH [OF rest] show ?case by simp
qed

lemma loop_vec_total:
  "list_all (\<lambda>x. validate_entity x = None \<and>
       (case embedding x of None \<Rightarrow> True | Some ns \<Rightarrow> length ns = VECTOR_DIMENSIONS)) es \<Longrightarrow>
     \<exists>vd'. create_entities_loop_vec f32 now vd es = Inr vd'"
proof (induction es arbitrary: vd)
  case Nil
  then show ?case by simp
next
  case (Cons e es)
  then obtain vd1 where "create_entities_body_vec f32 now vd e = Inr vd1"
    using body_vec_total [of e f32 now vd] by auto
  with Cons show ?case by simp
qed

lemma loop_vec_invalid:
  "list_ex (\<lambda>x. validate_entity x \<noteq> None) es \<Longrightarrow>
     \<exists>err. create_entities_loop_vec f32 now vd es = Inl err \<and>
           (is_validation_error err \<or> (\<exists>k. err = VectorDimensionMismatch k))"
proof (induction es arbitrary: vd)
  case Nil
  then show ?case by simp
next
  case (Cons e es)
  show ?case
  proof (cases "create_entities_body_vec f32 now vd e")
    case (Inl err)
    with body_vec_error [OF Inl] show ?thesis by simp
  next
    case (Inr vd1)
    from body_valid [OF body_vec_base [OF Inr]] Cons.prems
    have "list_ex (\<lambda>x. validate_entity x \<noteq> None) es" by simp
    from Cons.IH [OF this, of vd1] Inr show ?thesis by simp
  qed
qed

subsection \<open>Upsert and validation of a batch\<close>

text \<open>
  Claim C1. A batch of valid items is applied, and for every item \<open>e\<close> of the batch that
  no later item of the batch names again, the observations stored for \<open>name e\<close> afterwards
  are exactly \<open>observations e\<close>, in both clients: whatever was stored for that name
  before is gone, and \<open>get_entity\<close> returns the item itself. (In the vector-enabled
  client an item is applied when its embedding, if it has one, has 1536 components.)
\<close>

theorem upsert_replaces_observations:
  fixes e :: entity and ve :: "'n entity_v"
  assumes "list_all (\<lambda>x. validate_entity x = None) (pre @ e # post)"
      and "list_all (\<lambda>x. name x \<noteq> name e) post"
      and "list_all (\<lambda>x. validate_entity x = None \<and>
             (case embedding x of None \<Rightarrow> True | Some ns \<Rightarrow> length ns = VECTOR_DIMENSIONS))
             (vpre @ ve # vpost)"
      and "list_all (\<lambda>x. name x \<noteq> name ve) vpost"
  shows "(\<exists>d'. create_entities now d (pre @ e # post) = (Inr (), d') \<and>
               select_observations d' (name e) = observations e \<and>
               get_entity d' (name e) = Inr e) \<and>
         (\<exists>vd' emb. create_entities_vec f32 now vd (vpre @ ve # vpost) = (Inr (), vd') \<and>
               select_observations (base vd') (name ve) = observations ve \<and>
               get_entity_vec vd' (name ve) = Inr (ve\<lparr>embedding := emb\<rparr>))"
proof
  obtain d' where d': "create_entities_loop now d (pre @ e # post) = Inr d'"
    using loop_total [OF assms(1)] by blast
  from loop_result [OF d' assms(2)] obtain r where
      "select_observations d' (name e) = observations e"
      "select_entity d' (name e) = Some r" "e_name r = name e" "e_entity_type r = entityType e"
    by blast
  with d' show "\<exists>d'. create_entities now d (pre @ e # post) = (Inr (), d') \<and>
      select_observations d' (name e) = observations e \<and> get_entity d' (name e) = Inr e"
    by (simp add: create_entities_def rethrow_def transaction_def get_entity_def)
next
  obtain vd' where vd': "create_entities_loop_vec f32 now vd (vpre @ ve # vpost) = Inr vd'"
    using loop_vec_total [OF assms(3)] by blast
  from loop_result [OF loop_vec_base [OF vd'] assms(4)] obtain r where
      "select_observations (base vd') (name ve) = observations ve"
      "select_entity (base vd') (name ve) = Some r" "e_name r = name ve"
      "e_entity_type r = entityType ve"
    by blast
  with vd' have "create_entities_vec f32 now vd (vpre @ ve # vpost) = (Inr (), vd') \<and>
      select_observations (base vd') (name ve) = observations ve \<and>
      get_entity_vec vd' (name ve) = Inr (ve\<lparr>embedding := select_embedding vd' (name ve)\<rparr>)"
    by (simp add: create_entities_vec_def rethrow_def transaction_def get_entity_vec_def)
  then show "\<exists>vd' emb. create_entities_vec f32 now vd (vpre @ ve # vpost) = (Inr (), vd') \<and>
      select_observations (base vd') (name ve) = observations ve \<and>
      get_entity_vec vd' (name ve) = Inr (ve\<lparr>embedding := emb\<rparr>)"
    by blast
qed

lemma is_space_simps:
  "is_space CHR '' ''" "\<not> is_space CHR ''A''" "\<not> is_space CHR ''B''" "\<not> is_space CHR ''C''"
  "\<not> is_space CHR ''p''" "\<not> is_space CHR ''l''" "\<not> is_space CHR ''i''"
  by (simp_all add: is_space_def)

theorem upsert_replaces_observations_witness:
  "select_observations two_entities ''A'' = [''likes tea''] \<and>
   fst (create_entities 5 two_entities [a_new, b_new]) = Inr () \<and>
   select_observations (snd (create_entities 5 two_entities [a_new, b_new])) ''A'' =
     [''likes milk'', ''is tall''] \<and>
   get_entity (snd (create_entities 5 two_entities [a_new, b_new])) ''A'' = Inr a_new \<and>
   fst (create_entities_vec (\<lambda>x. x) 5 two_entities_vec
          [with_embedding a_new None, with_embedding b_new None]) = Inr () \<and>
   select_observations
     (base (snd (create_entities_vec (\<lambda>x. x) 5 two_entities_vec
          [with_embedding a_new None, with_embedding b_new None]))) ''A'' =
     [''likes milk'', ''is tall'']"
proof -
  have h1: "list_all (\<lambda>x. validate_entity x = None) ([] @ a_new # [b_new])"
    by (simp add: validate_entity_def js_trim_def a_new_def b_new_def is_space_simps)
  have h2: "list_all (\<lambda>x. name x \<noteq> name a_new) [b_new]"
    by (simp add: a_new_def b_new_def)
  have h3: "list_all (\<lambda>x. validate_entity x = None \<and>
             (case embedding x of None \<Rightarrow> True | Some ns \<Rightarrow> length ns = VECTOR_DIMENSIONS))
             ([] @ with_embedding a_new (None :: int list option) # [with_embedding b_new None])"
    by (simp add: validate_entity_def js_trim_def a_new_def b_new_def is_space_simps
          with_embedding_def)
  have h4: "list_all (\<lambda>x. name x \<noteq> name (with_embedding a_new (None :: int list option)))
      [with_embedding b_new (None :: int list option)]"
    by (simp add: a_new_def b_new_def with_embedding_def)
  have old: "select_observations two_entities ''A'' = [''likes tea'']"
    by (simp add: select_observations_def two_entities_def)
  from upsert_replaces_observations [OF h1 h2 h3 h4, of 5 two_entities "\<lambda>x. x" two_entities_vec]
  show ?thesis using old by (auto simp: a_new_def with_embedding_def)
qed

text \<open>
  Claim C4. A batch with an item whose name or entity type is empty or blank, whose
  observation list is empty, or one of whose observations is empty or blank, fails, and
  the store is exactly what it was before the call. In the text-only client the error is
  a validation error; in the vector-enabled client an earlier item with a wrong vector
  length may fail the batch first.
\<close>

theorem invalid_item_aborts_batch:
  assumes "e \<in> set es"
      and "js_trim (name e) = [] \<or> js_trim (entityType e) = [] \<or> observations e = [] \<or>
           list_ex (\<lambda>obs. js_trim obs = []) (observations e)"
      and "ve \<in> set ves"
      and "js_trim (name ve) = [] \<or> js_trim (entityType ve) = [] \<or> observations ve = [] \<or>
           list_ex (\<lambda>obs. js_trim obs = []) (observations ve)"
  shows "(\<exists>err. create_entities now d es = (Inl (EntityOperationFailed err), d) \<and>
                is_validation_error err) \<and>
         (\<exists>err. create_entities_vec f32 now vd ves = (Inl (EntityOperationFailed err), vd) \<and>
                (is_validation_error err \<or> (\<exists>k. err = VectorDimensionMismatch k)))"
proof
  from assms(1) claimed_invalid [OF assms(2)]
  have "list_ex (\<lambda>x. validate_entity x \<noteq> None) es" by (auto simp: list_ex_iff)
  from loop_invalid [OF this, of now d]
  show "\<exists>err. create_entities now d es = (Inl (EntityOperationFailed err), d) \<and>
      is_validation_error err"
    by (auto simp: create_entities_def rethrow_def transaction_def)
next
  from assms(3) claimed_invalid [OF assms(4)]
  have "list_ex (\<lambda>x. validate_entity x \<noteq> None) ves" by (auto simp: list_ex_iff)
  from loop_vec_invalid [OF this, of f32 now vd]
  show "\<exists>err. create_entities_vec f32 now vd ves = (Inl (EntityOperationFailed err), vd) \<and>
      (is_validation_error err \<or> (\<exists>k. err = VectorDimensionMismatch k))"
    by (auto simp: create_entities_vec_def rethrow_def transaction_def)
qed

theorem invalid_item_aborts_batch_witness:
  "blank_type \<in> set [a_new, blank_type] \<and> js_trim (entityType blank_type) = [] \<and>
   snd (create_entities 5 two_entities [a_new, blank_type]) = two_entities \<and>
   fst (create_entities 5 two_entities [a_new, blank_type]) \<noteq> Inr () \<and>
   snd (create_entities_vec (\<lambda>x. x) 5 two_entities_vec
          [with_embedding a_new None, with_embedding blank_type None]) = two_entities_vec"
proof -
  have h1: "blank_type \<in> set [a_new, blank_type]" by simp
  have b: "js_trim (entityType blank_type) = []"
    by (simp add: js_trim_def blank_type_def is_space_simps)
  then have h2: "js_trim (name blank_type) = [] \<or> js_trim (entityType blank_type) = [] \<or>
      observations blank_type = [] \<or> list_ex (\<lambda>obs. js_trim obs = []) (observations blank_type)"
    by simp
  have h3: "with_embedding blank_type (None :: int list option) \<in>
      set [with_embedding a_new None, with_embedding blank_type None]" by simp
  have h4: "js_trim (name (with_embedding blank_type (None :: int list option))) = [] \<or>
      js_trim (entityType (with_embedding blank_type (None :: int list option))) = [] \<or>
      observations (with_embedding blank_type (None :: int list option)) = [] \<or>
      list_ex (\<lambda>obs. js_trim obs = [])
        (observations (with_embedding blank_type (None :: int list option)))"
    using b by (simp add: with_embedding_def)
  from invalid_item_aborts_batch [OF h1 h2 h3 h4, of 5 two_entities "\<lambda>x. x" two_entities_vec]
  show ?thesis using b by auto
qed

subsection \<open>Delete\<close>

lemma delete_body_eq:
  "delete_entity_row (delete_relations_of (delete_observations s n) n) n =
     Inr (s\<lparr>tbl_entities := filter (\<lambda>r. e_name r \<noteq> n) (tbl_entities s),
            tbl_observations := filter (\<lambda>r. o_entity_name r \<noteq> n) (tbl_observations s),
            tbl_relations := filter (\<lambda>r. \<not> (source r = n \<or> target r = n)) (tbl_relations s)\<rparr>)"
  by (auto simp: delete_entity_row_def delete_relations_of_def delete_observations_def
        list_ex_iff)

lemma select_entity_filtered:
  "tbl_entities d' = filter (\<lambda>r. e_name r \<noteq> n) rows \<Longrightarrow> select_entity d' n = None"
  by (simp add: select_entity_def find_None_iff)

lemma delete_entity_present:
  assumes "select_entity d n = Some r"
  shows "\<exists>d'. delete_entity d n = (Inr (), d') \<and>
           \<not> list_ex (\<lambda>ob. o_entity_name ob = n) (tbl_observations d') \<and>
           \<not> list_ex (\<lambda>rel. source rel = n \<or> target rel = n) (tbl_relations d') \<and>
           \<not> list_ex (\<lambda>row. e_name row = n) (tbl_entities d') \<and>
           get_entity d' n = Inl (EntityNotFound n)"
  using assms
  by (simp add: delete_entity_def rethrow_def transaction_def delete_body_eq list_ex_iff
        get_entity_def select_entity_filtered)

lemma delete_entity_absent:
  "select_entity d n = None \<Longrightarrow>
     delete_entity d n = (Inl (FailedToDeleteEntity n (EntityNotFound n)), d)"
  by (simp add: delete_entity_def rethrow_def)

lemma concat_all_Nil: "(\<And>x. x \<in> set xs \<Longrightarrow> f x = []) \<Longrightarrow> concat (map f xs) = []"
  by (induction xs) auto

lemma select_embedding_None:
  assumes "\<not> list_ex (\<lambda>row. e_name row = n) (tbl_entities (base vd))"
  shows "select_embedding vd n = None"
proof -
  have "concat (map (\<lambda>e. if v_rowid v = e_rowid e \<and> e_name e = n then [v_embedding v] else [])
          (tbl_entities (base vd))) = []" for v :: "'a vec_row"
    using assms by (intro concat_all_Nil) (auto simp: list_ex_iff)
  note inner = this
  have "concat (map (\<lambda>v. concat (map (\<lambda>e. if v_rowid v = e_rowid e \<and> e_name e = n
          then [v_embedding v] else []) (tbl_entities (base vd)))) (tbl_entities_vec vd)) = []"
    by (rule concat_all_Nil) (rule inner)
  then show ?thesis unfolding select_embedding_def by (simp only: list.case)
qed

lemma delete_entity_vec_present:
  assumes "select_entity (base vd) n = Some r"
  shows "\<exists>vd'. delete_entity_vec vd n = (Inr (), vd') \<and>
           \<not> list_ex (\<lambda>ob. o_entity_name ob = n) (tbl_observations (base vd')) \<and>
           \<not> list_ex (\<lambda>rel. source rel = n \<or> target rel = n) (tbl_relations (base vd')) \<and>
           \<not> list_ex (\<lambda>row. e_name row = n) (tbl_entities (base vd')) \<and>
           \<not> list_ex (\<lambda>v. v_rowid v = e_rowid r) (tbl_entities_vec vd') \<and>
           select_embedding vd' n = None \<and>
           get_entity_vec vd' n = Inl (EntityNotFound n)"
proof -
  let ?b = "delete_relations_of (delete_observations (base vd) n) n"
  have sel: "select_entity ?b n = Some r"
    using assms by (simp add: select_entity_def delete_relations_of_def delete_observations_def)
  let ?vd' = "vd\<lparr>base := (base vd)\<lparr>tbl_entities := filter (\<lambda>r. e_name r \<noteq> n) (tbl_entities (base vd)),
            tbl_observations := filter (\<lambda>r. o_entity_name r \<noteq> n) (tbl_observations (base vd)),
            tbl_relations := filter (\<lambda>r. \<not> (source r = n \<or> target r = n)) (tbl_relations (base vd))\<rparr>,
         tbl_entities_vec := filter (\<lambda>v. v_rowid v \<noteq> e_rowid r) (tbl_entities_vec vd)\<rparr>"
  have "delete_entity_row ?b n = Inr (base ?vd')"
    by (simp add: delete_body_eq)
  then have run: "delete_entity_vec vd n = (Inr (), ?vd')"
    using assms sel
    by (simp add: delete_entity_vec_def rethrow_def transaction_def on_base_def delete_vec_def)
  have gone: "\<not> list_ex (\<lambda>row. e_name row = n) (tbl_entities (base ?vd'))"
    by (simp add: list_ex_iff)
  have "select_entity (base ?vd') n = None"
    by (simp add: select_entity_def find_None_iff)
  then have "get_entity_vec ?vd' n = Inl (EntityNotFound n)"
    by (simp add: get_entity_vec_def)
  with run gone select_embedding_None [OF gone] show ?thesis
    by (simp add: list_ex_iff)
qed

lemma delete_entity_vec_absent:
  "select_entity (base vd) n = None \<Longrightarrow>
     delete_entity_vec vd n = (Inl (FailedToDeleteEntity n (EntityNotFound n)), vd)"
  by (simp add: delete_entity_vec_def rethrow_def)

text \<open>
  What \<open>delete_entity\<close> does in both clients. For an entity that exists it succeeds
  and leaves a store with no observation of that name, no relation with that name as
  source or target and no entity row of that name, so that \<open>get_entity\<close> then fails
  with not-found; in the vector-enabled client no row of \<open>entities_vec\<close> is left under
  the entity's rowid. For a name that does not exist it fails with not-found and the
  store is unchanged.
\<close>

lemma delete_entity_removes_rows:
  "(select_entity d n = Some r \<longrightarrow>
      (\<exists>d'. delete_entity d n = (Inr (), d') \<and>
            \<not> list_ex (\<lambda>ob. o_entity_name ob = n) (tbl_observations d') \<and>
            \<not> list_ex (\<lambda>rel. source rel = n \<or> target rel = n) (tbl_relations d') \<and>
            \<not> list_ex (\<lambda>row. e_name row = n) (tbl_entities d') \<and>
            get_entity d' n = Inl (EntityNotFound n))) \<and>
   (select_entity d n = None \<longrightarrow>
      delete_entity d n = (Inl (FailedToDeleteEntity n (EntityNotFound n)), d)) \<and>
   (select_entity (base vd) n = Some vr \<longrightarrow>
      (\<exists>vd'. delete_entity_vec vd n = (Inr (), vd') \<and>
            \<not> list_ex (\<lambda>ob. o_entity_name ob = n) (tbl_observations (base vd')) \<and>
            \<not> list_ex (\<lambda>rel. source rel = n \<or> target rel = n) (tbl_relations (base vd')) \<and>
            \<not> list_ex (\<lambda>row. e_name row = n) (tbl_entities (base vd')) \<and>
            \<not> list_ex (\<lambda>v. v_rowid v = e_rowid vr) (tbl_entities_vec vd') \<and>
            select_embedding vd' n = None \<and>
            get_entity_vec vd' n = Inl (EntityNotFound n))) \<and>
   (select_entity (base vd) n = None \<longrightarrow>
      delete_entity_vec vd n = (Inl (FailedToDeleteEntity n (EntityNotFound n)), vd))"
  using delete_entity_present [of d n r] delete_entity_absent [of d n]
    delete_entity_vec_present [of vd n vr] delete_entity_vec_absent [of vd n]
  by blast

section \<open>Embeddings of the vector-enabled client\<close>

lemma is_space_simps2:
  "\<not> is_space CHR ''c''" "\<not> is_space CHR ''t''"
  by (simp_all add: is_space_def)

lemma create_a_vec:
  "create_entities_vec f32 1 empty_vdb [with_embedding entity_a None] =
     (Inr (), \<lparr>base = \<lparr>tbl_entities = [\<lparr>e_rowid = 1, e_name = ''A'', e_entity_type = ''person'',
                                         e_created_at = 1\<rparr>],
                       tbl_observations = [\<lparr>o_entity_name = ''A'', o_content = ''likes tea''\<rparr>],
                       tbl_relations = []\<rparr>,
               tbl_entities_vec = [], vec_seq = 0\<rparr>)"
  by (simp add: create_entities_vec_def rethrow_def transaction_def create_entities_body_vec_def
        validate_entity_def js_trim_def is_space_simps is_space_simps2 entity_a_def
        with_embedding_def on_base_def upsert_entity_row_def select_entity_def empty_vdb_def
        empty_db_def insert_entity_def next_rowid_def handle_embedding_def
        replace_observations_def delete_observations_def insert_observation_def)

lemma create_b_vec:
  assumes "length E = VECTOR_DIMENSIONS"
  shows "create_entities_vec f32 2
       \<lparr>base = \<lparr>tbl_entities = [\<lparr>e_rowid = 1, e_name = ''A'', e_entity_type = ''person'',
                                         e_created_at = 1\<rparr>],
                       tbl_observations = [\<lparr>o_entity_name = ''A'', o_content = ''likes tea''\<rparr>],
                       tbl_relations = []\<rparr>,
               tbl_entities_vec = [], vec_seq = 0\<rparr>
       [with_embedding entity_b (Some E)] =
     (Inr (), \<lparr>base = \<lparr>tbl_entities = [\<lparr>e_rowid = 1, e_name = ''A'', e_entity_type = ''person'',
                                         e_created_at = 1\<rparr>,
                                       \<lparr>e_rowid = 2, e_name = ''B'', e_entity_type = ''person'',
                                         e_created_at = 2\<rparr>],
                       tbl_observations = [\<lparr>o_entity_name = ''A'', o_content = ''likes tea''\<rparr>,
                                           \<lparr>o_entity_name = ''B'', o_content = ''likes coffee''\<rparr>],
                       tbl_relations = []\<rparr>,
               tbl_entities_vec = [\<lparr>v_rowid = 1, v_embedding = map f32 E\<rparr>], vec_seq = 1\<rparr>)"
  using assms
  by (simp add: create_entities_vec_def rethrow_def transaction_def create_entities_body_vec_def
        validate_entity_def js_trim_def is_space_simps is_space_simps2 entity_b_def
        with_embedding_def on_base_def upsert_entity_row_def select_entity_def
        insert_entity_def next_rowid_def handle_embedding_def vector_to_buffer_def
        select_vec_of_def insert_vec_def
        replace_observations_def delete_observations_def insert_observation_def)

text \<open>
  Claim C8 fails on the code. On the empty store, create \<open>A\<close> without an embedding and
  then \<open>B\<close> with an embedding \<open>E\<close> of 1536 components. \<open>B\<close> gets rowid 2 in
  \<open>entities\<close>, but the insert into \<open>entities_vec\<close> names no rowid and the first row
  of that table gets rowid 1: \<open>get_entity\<close> of \<open>B\<close> returns no embedding, and
  \<open>get_entity\<close> of \<open>A\<close> returns the one supplied for \<open>B\<close>.
\<close>

theorem embedding_joins_other_entity:
  assumes "length E = VECTOR_DIMENSIONS"
      and "vd1 = snd (create_entities_vec f32 1 empty_vdb [with_embedding entity_a None])"
      and "vd2 = snd (create_entities_vec f32 2 vd1 [with_embedding entity_b (Some E)])"
  shows "get_entity_vec vd2 ''B'' = Inr (with_embedding entity_b None) \<and>
         get_entity_vec vd2 ''A'' = Inr (with_embedding entity_a (Some (map f32 E)))"
proof -
  have "vd2 = snd (create_entities_vec f32 2
      (snd (create_entities_vec f32 1 empty_vdb [with_embedding entity_a None]))
      [with_embedding entity_b (Some E)])"
    using assms(2,3) by simp
  then have "vd2 = \<lparr>base = \<lparr>tbl_entities =
                 [\<lparr>e_rowid = 1, e_name = ''A'', e_entity_type = ''person'', e_created_at = 1\<rparr>,
                  \<lparr>e_rowid = 2, e_name = ''B'', e_entity_type = ''person'', e_created_at = 2\<rparr>],
               tbl_observations = [\<lparr>o_entity_name = ''A'', o_content = ''likes tea''\<rparr>,
                                   \<lparr>o_entity_name = ''B'', o_content = ''likes coffee''\<rparr>],
               tbl_relations = []\<rparr>,
             tbl_entities_vec = [\<lparr>v_rowid = 1, v_embedding = map f32 E\<rparr>], vec_seq = 1\<rparr>"
    by (simp only: create_a_vec create_b_vec [OF assms(1)] snd_conv)
  then show ?thesis
    by (simp add: get_entity_vec_def select_entity_def select_observations_def
          select_embedding_def buffer_to_vector_def with_embedding_def entity_a_def entity_b_def)
qed

theorem embedding_joins_other_entity_witness:
  "length (replicate 1536 (7::int)) = VECTOR_DIMENSIONS \<and>
   get_entity_vec
     (snd (create_entities_vec (\<lambda>x. x) 2
        (snd (create_entities_vec (\<lambda>x. x) 1 empty_vdb [with_embedding entity_a None]))
        [with_embedding entity_b (Some (replicate 1536 (7::int)))])) ''B'' =
     Inr (with_embedding entity_b None) \<and>
   get_entity_vec
     (snd (create_entities_vec (\<lambda>x. x) 2
        (snd (create_entities_vec (\<lambda>x. x) 1 empty_vdb [with_embedding entity_a None]))
        [with_embedding entity_b (Some (replicate 1536 (7::int)))])) ''A'' =
     Inr (with_embedding entity_a (Some (replicate 1536 (7::int))))"
proof -
  have h: "length (replicate 1536 (7::int)) = VECTOR_DIMENSIONS"
    by (simp add: VECTOR_DIMENSIONS_def)
  from embedding_joins_other_entity [OF h refl refl, of "\<lambda>x. x"] h
  show ?thesis by simp
qed

lemma store_after_a_and_b:
  assumes "length E = VECTOR_DIMENSIONS"
      and "vd1 = snd (create_entities_vec f32 1 empty_vdb [with_embedding entity_a None])"
      and "vd2 = snd (create_entities_vec f32 2 vd1 [with_embedding entity_b (Some E)])"
  shows "vd2 = \<lparr>base = \<lparr>tbl_entities =
                 [\<lparr>e_rowid = 1, e_name = ''A'', e_entity_type = ''person'', e_created_at = 1\<rparr>,
                  \<lparr>e_rowid = 2, e_name = ''B'', e_entity_type = ''person'', e_created_at = 2\<rparr>],
               tbl_observations = [\<lparr>o_entity_name = ''A'', o_content = ''likes tea''\<rparr>,
                                   \<lparr>o_entity_name = ''B'', o_content = ''likes coffee''\<rparr>],
               tbl_relations = []\<rparr>,
             tbl_entities_vec = [\<lparr>v_rowid = 1, v_embedding = map f32 E\<rparr>], vec_seq = 1\<rparr>"
proof -
  have "vd2 = snd (create_entities_vec f32 2
      (snd (create_entities_vec f32 1 empty_vdb [with_embedding entity_a None]))
      [with_embedding entity_b (Some E)])"
    using assms(2,3) by simp
  then show ?thesis
    by (simp only: create_a_vec create_b_vec [OF assms(1)] snd_conv)
qed

text \<open>
  Claim C2 fails on the vector-enabled client, by the same missing rowid. In the store
  above, \<open>delete_entity\<close> of \<open>B\<close> succeeds and removes the row of \<open>entities_vec\<close>
  under rowid 2, of which there is none: the embedding supplied for \<open>B\<close> stays stored
  and \<open>get_entity\<close> of \<open>A\<close> still returns it. \<open>delete_entity\<close> of \<open>A\<close>, which was
  given no embedding, removes the one supplied for \<open>B\<close>.
\<close>

theorem delete_entity_leaves_supplied_embedding:
  assumes "length E = VECTOR_DIMENSIONS"
      and "vd1 = snd (create_entities_vec f32 1 empty_vdb [with_embedding entity_a None])"
      and "vd2 = snd (create_entities_vec f32 2 vd1 [with_embedding entity_b (Some E)])"
  shows "fst (delete_entity_vec vd2 ''B'') = Inr () \<and>
         get_entity_vec (snd (delete_entity_vec vd2 ''B'')) ''B'' = Inl (EntityNotFound ''B'') \<and>
         tbl_entities_vec (snd (delete_entity_vec vd2 ''B'')) =
           [\<lparr>v_rowid = 1, v_embedding = map f32 E\<rparr>] \<and>
         get_entity_vec (snd (delete_entity_vec vd2 ''B'')) ''A'' =
           Inr (with_embedding entity_a (Some (map f32 E))) \<and>
         fst (delete_entity_vec vd2 ''A'') = Inr () \<and>
         tbl_entities_vec (snd (delete_entity_vec vd2 ''A'')) = [] \<and>
         get_entity_vec (snd (delete_entity_vec vd2 ''A'')) ''B'' =
           Inr (with_embedding entity_b None)"
  unfolding store_after_a_and_b [OF assms]
  by (simp add: delete_entity_vec_def rethrow_def transaction_def on_base_def delete_vec_def
        select_entity_def delete_observations_def delete_relations_of_def delete_entity_row_def
        get_entity_vec_def select_observations_def select_embedding_def buffer_to_vector_def
        with_embedding_def entity_a_def entity_b_def)

theorem delete_entity_leaves_supplied_embedding_witness:
  "length (replicate 1536 (7::int)) = VECTOR_DIMENSIONS \<and>
   fst (delete_entity_vec
     (snd (create_entities_vec (\<lambda>x. x) 2
        (snd (create_entities_vec (\<lambda>x. x) 1 empty_vdb [with_embedding entity_a None]))
        [with_embedding entity_b (Some (replicate 1536 (7::int)))])) ''B'') = Inr () \<and>
   get_entity_vec (snd (delete_entity_vec
     (snd (create_entities_vec (\<lambda>x. x) 2
        (snd (create_entities_vec (\<lambda>x. x) 1 empty_vdb [with_embedding entity_a None]))
        [with_embedding entity_b (Some (replicate 1536 (7::int)))])) ''B'')) ''A'' =
     Inr (with_embedding entity_a (Some (replicate 1536 (7::int))))"
proof -
  have h: "length (replicate 1536 (7::int)) = VECTOR_DIMENSIONS"
    by (simp add: VECTOR_DIMENSIONS_def)
  from delete_entity_leaves_supplied_embedding [OF h refl refl, of "\<lambda>x. x"] h
  show ?thesis by simp
qed

section \<open>Text search: ranking, limit, separators, wildcards\<close>

subsection \<open>ORDER BY\<close>

lemma ranks_before_total: "\<not> ranks_before r s \<Longrightarrow> ranks_before s r"
  by (auto simp: ranks_before_def)

lemma ranks_before_trans: "ranks_before a b \<Longrightarrow> ranks_before b c \<Longrightarrow> ranks_before a c"
  by (auto simp: ranks_before_def)

lemma set_insert_row: "set (insert_row r ss) = insert r (set ss)"
  by (induction ss) auto


lemma sorted_insert_row:
  "sorted_wrt ranks_before ss \<Longrightarrow> sorted_wrt ranks_before (insert_row r ss)"
proof (induction ss)
  case Nil
  then show ?case by simp
next
  case (Cons s ss)
  show ?case
  proof (cases "ranks_before r s")
    case True
    with Cons.prems show ?thesis by (auto intro: ranks_before_trans)
  next
    case False
    then have "ranks_before s r" by (rule ranks_before_total)
    with False Cons show ?thesis by (auto simp: set_insert_row)
  qed
qed

lemma sorted_order_by: "sorted_wrt ranks_before (order_by rows)"
  unfolding order_by_def by (induction rows) (auto intro: sorted_insert_row)

lemma set_order_by: "set (order_by rows) = set rows"
  unfolding order_by_def by (induction rows) (auto simp: set_insert_row)


subsection \<open>The rows of the statement\<close>

lemma left_join_row:
  assumes "j \<in> set (left_join_observations d)"
  shows "fst j \<in> set (tbl_entities d) \<and>
         (case snd j of None \<Rightarrow> True
          | Some c \<Rightarrow> c \<in> set (select_observations d (e_name (fst j))))"
proof -
  from assms obtain e where e: "e \<in> set (tbl_entities d)"
    and j: "j \<in> set (case filter (\<lambda>ob. o_entity_name ob = e_name e) (tbl_observations d) of
                         [] \<Rightarrow> [(e, None)]
                       | obs \<Rightarrow> map (\<lambda>ob. (e, Some (o_content ob))) obs)"
    by (auto simp: left_join_observations_def)
  show ?thesis
  proof (cases "filter (\<lambda>ob. o_entity_name ob = e_name e) (tbl_observations d)")
    case Nil
    with j e show ?thesis by simp
  next
    case (Cons ob obs)
    with j obtain x where "x \<in> set (filter (\<lambda>ob. o_entity_name ob = e_name e) (tbl_observations d))"
      and "j = (e, Some (o_content x))" by auto
    with e show ?thesis by (auto simp: select_observations_def)
  qed
qed


lemma sqlite_limit_take:
  "sqlite_limit v rows = Inr rs \<Longrightarrow> \<exists>n. rs = take n rows"
proof (cases v)
  case (Finite q)
  assume "sqlite_limit v rows = Inr rs"
  with Finite have "rs = rows \<or> rs = take (nat \<lfloor>q\<rfloor>) rows"
    by (auto simp: sqlite_limit_def split: if_splits)
  then show ?thesis
  proof
    assume "rs = rows"
    then have "rs = take (length rows) rows" by simp
    then show ?thesis ..
  next
    assume "rs = take (nat \<lfloor>q\<rfloor>) rows"
    then show ?thesis ..
  qed
qed (simp_all add: sqlite_limit_def)

lemma search_rows_sorted:
  assumes "search_rows d pat limit = Inr rows"
  shows "sorted_wrt ranks_before rows"
proof -
  from assms obtain n where "rows = take n (matching_rows d pat)"
    unfolding search_rows_def by (blast dest: sqlite_limit_take)
  then show ?thesis
    by (simp add: matching_rows_def sorted_wrt_take sorted_order_by)
qed

lemma search_rows_row:
  assumes "search_rows d pat limit = Inr rows" and "r \<in> set rows"
  shows "(\<exists>e \<in> set (tbl_entities d). sr_name r = e_name e \<and> sr_entity_type r = e_entity_type e \<and>
            sr_created_at r = e_created_at e) \<and>
         relevance_score r = (if like pat (sr_name r) then 3
                              else if like pat (sr_entity_type r) then 2 else 1) \<and>
         (like pat (sr_name r) \<or> like pat (sr_entity_type r) \<or>
          list_ex (like pat) (select_observations d (sr_name r)))"
proof -
  from assms(1) obtain n where "rows = take n (matching_rows d pat)"
    unfolding search_rows_def by (blast dest: sqlite_limit_take)
  with assms(2) have "r \<in> set (matching_rows d pat)"
    by (auto dest: in_set_takeD)
  then obtain j where j: "j \<in> set (left_join_observations d)" and w: "where_matches pat j"
    and r: "r = select_list pat j"
    by (auto simp: matching_rows_def set_order_by)
  from left_join_row [OF j] w r show ?thesis
    by (cases "snd j") (auto simp: select_list_def where_matches_def list_ex_iff)
qed

lemma search_entities_of_rows:
  assumes "search_rows d (search_pattern query) (effective_limit limit) = Inr rows"
  shows "\<exists>es. search_entities d query limit = Inr es \<and> map name es = map sr_name rows \<and>
              map entityType es = map sr_entity_type rows"
  using assms by (simp add: search_entities_def comp_def)

lemma effective_limit_finite:
  "effective_limit (Finite q) = Finite (if q \<le> 1 then 1 else if 50 \<le> q then 50 else q)"
  by (simp add: effective_limit_def math_max_def math_min_def)

lemma effective_limit_infinite:
  "effective_limit NegInfinity = Finite 1" "effective_limit PosInfinity = Finite 50"
  by (simp_all add: effective_limit_def math_max_def math_min_def)

lemma effective_limit_whole:
  assumes "whole_or_out_of_range limit"
  shows "\<exists>k. effective_limit limit = Finite (of_int k) \<and> 1 \<le> k \<and> k \<le> 50"
proof (cases limit)
  case (Finite q)
  show ?thesis
  proof (cases "q \<le> 1")
    case True
    then have "effective_limit limit = Finite (of_int 1)"
      using Finite by (simp add: effective_limit_finite)
    then show ?thesis by (intro exI [of _ 1]) simp
  next
    case low: False
    show ?thesis
    proof (cases "50 \<le> q")
      case True
      with low have "effective_limit limit = Finite (of_int 50)"
        using Finite by (simp add: effective_limit_finite)
      then show ?thesis by (intro exI [of _ 50]) simp
    next
      case False
      with low assms Finite have w: "q = of_int \<lfloor>q\<rfloor>"
        by (simp add: whole_or_out_of_range_def)
      from low False Finite have e: "effective_limit limit = Finite q"
        by (simp add: effective_limit_finite)
      from low False have "1 \<le> \<lfloor>q\<rfloor>" "\<lfloor>q\<rfloor> \<le> 50"
        by (simp_all add: le_floor_iff floor_le_iff)
      with e w show ?thesis by (intro exI [of _ "\<lfloor>q\<rfloor>"]) simp
    qed
  qed
next
  case NaN
  with assms show ?thesis by (simp add: whole_or_out_of_range_def)
next
  case PosInfinity
  then show ?thesis by (intro exI [of _ 50]) (simp add: effective_limit_infinite)
next
  case NegInfinity
  then show ?thesis by (intro exI [of _ 1]) (simp add: effective_limit_infinite)
qed

lemma sqlite_limit_whole:
  assumes "1 \<le> k" and "k \<le> 50"
  shows "sqlite_limit (Finite (of_int k)) rows = Inr (take (nat k) rows)"
proof -
  have "- (2 ^ 63) \<le> (of_int k :: rat)" using assms(1) by (simp add: order_trans [of _ 0])
  moreover have "(of_int k :: rat) \<le> 50" using assms(2) by (simp add: of_int_le_iff [symmetric] del: of_int_le_iff) 
  then have "(of_int k :: rat) < 2 ^ 63" by simp
  moreover have "\<not> (of_int k :: rat) < 0" using assms(1) by simp
  ultimately show ?thesis by (simp add: sqlite_limit_def)
qed

lemma search_rows_returns:
  assumes "whole_or_out_of_range limit"
  shows "\<exists>rows. search_rows d pat (effective_limit limit) = Inr rows"
proof -
  from effective_limit_whole [OF assms] obtain k where
    "effective_limit limit = Finite (of_int k)" "1 \<le> k" "k \<le> 50" by blast
  then show ?thesis by (simp add: search_rows_def sqlite_limit_whole)
qed

text \<open>
  Claim C5. In the result of a text search an entity whose name matches stands before
  every entity that matches by its type only, and that before every entity that matches
  in an observation only, whatever their creation times; entities of equal precedence
  stand in the order of their creation times, the most recent first. \<open>rows\<close> are the
  rows the statement returns, one per returned entity and in the same order;
  \<open>relevance_score\<close> is 3, 2 or 1 for a match by name, by type only, or in an
  observation only. The statement returns rows for every limit that is a whole number or
  lies outside 1 to 50 (\<open>search_rows_returns\<close>).
\<close>

theorem text_search_ranking:
  assumes "search_rows d (search_pattern query) (effective_limit limit) = Inr rows"
      and "i < j" and "j < length rows"
  shows "(\<exists>es. search_entities d query limit = Inr es \<and> map name es = map sr_name rows \<and>
               map entityType es = map sr_entity_type rows) \<and>
         relevance_score (rows ! j) \<le> relevance_score (rows ! i) \<and>
         (relevance_score (rows ! i) = relevance_score (rows ! j) \<longrightarrow>
            sr_created_at (rows ! j) \<le> sr_created_at (rows ! i)) \<and>
         list_all (\<lambda>r.
            (\<exists>e \<in> set (tbl_entities d). sr_name r = e_name e \<and>
                sr_entity_type r = e_entity_type e \<and> sr_created_at r = e_created_at e) \<and>
            (relevance_score r = 3 \<longleftrightarrow> like (search_pattern query) (sr_name r)) \<and>
            (relevance_score r = 2 \<longleftrightarrow> \<not> like (search_pattern query) (sr_name r) \<and>
                                       like (search_pattern query) (sr_entity_type r)) \<and>
            (relevance_score r = 1 \<longleftrightarrow> \<not> like (search_pattern query) (sr_name r) \<and>
                                       \<not> like (search_pattern query) (sr_entity_type r) \<and>
                list_ex (like (search_pattern query)) (select_observations d (sr_name r))))
           rows"
proof -
  have "sorted_wrt ranks_before rows" using assms(1) by (rule search_rows_sorted)
  with assms(2,3) have "ranks_before (rows ! i) (rows ! j)"
    by (simp add: sorted_wrt_iff_nth_less)
  then have order: "relevance_score (rows ! j) \<le> relevance_score (rows ! i) \<and>
         (relevance_score (rows ! i) = relevance_score (rows ! j) \<longrightarrow>
            sr_created_at (rows ! j) \<le> sr_created_at (rows ! i))"
    by (auto simp: ranks_before_def)
  have each: "list_all (\<lambda>r.
            (\<exists>e \<in> set (tbl_entities d). sr_name r = e_name e \<and>
                sr_entity_type r = e_entity_type e \<and> sr_created_at r = e_created_at e) \<and>
            (relevance_score r = 3 \<longleftrightarrow> like (search_pattern query) (sr_name r)) \<and>
            (relevance_score r = 2 \<longleftrightarrow> \<not> like (search_pattern query) (sr_name r) \<and>
                                       like (search_pattern query) (sr_entity_type r)) \<and>
            (relevance_score r = 1 \<longleftrightarrow> \<not> like (search_pattern query) (sr_name r) \<and>
                                       \<not> like (search_pattern query) (sr_entity_type r) \<and>
                list_ex (like (search_pattern query)) (select_observations d (sr_name r))))
           rows"
    unfolding list_all_iff
  proof
    fix r assume "r \<in> set rows"
    from search_rows_row [OF assms(1) this]
    show "(\<exists>e \<in> set (tbl_entities d). sr_name r = e_name e \<and>
                sr_entity_type r = e_entity_type e \<and> sr_created_at r = e_created_at e) \<and>
            (relevance_score r = 3 \<longleftrightarrow> like (search_pattern query) (sr_name r)) \<and>
            (relevance_score r = 2 \<longleftrightarrow> \<not> like (search_pattern query) (sr_name r) \<and>
                                       like (search_pattern query) (sr_entity_type r)) \<and>
            (relevance_score r = 1 \<longleftrightarrow> \<not> like (search_pattern query) (sr_name r) \<and>
                                       \<not> like (search_pattern query) (sr_entity_type r) \<and>
                list_ex (like (search_pattern query)) (select_observations d (sr_name r)))"
      by (auto split: if_splits)
  qed
  from order each search_entities_of_rows [OF assms(1)] show ?thesis by simp
qed

lemma foo_rows_eval:
  "search_rows foo_db (search_pattern ''foo'') (effective_limit (Finite 10)) = Inr foo_rows"
  by code_simp

theorem text_search_ranking_witness:
  "search_rows foo_db (search_pattern ''foo'') (effective_limit (Finite 10)) = Inr foo_rows \<and>
   (1::nat) < 3 \<and> 3 < length foo_rows \<and>
   map_sum id (map name) (search_entities foo_db ''foo'' (Finite 10)) =
     Inr [''Foo W'', ''X foo'', ''Y'', ''Z''] \<and>
   relevance_score (foo_rows ! 3) \<le> relevance_score (foo_rows ! 1) \<and>
   sr_created_at (foo_rows ! 1) < sr_created_at (foo_rows ! 3) \<and>
   like (search_pattern ''foo'') (sr_name (foo_rows ! 1)) \<and>
   \<not> like (search_pattern ''foo'') (sr_name (foo_rows ! 3))"
proof -
  note h1 = foo_rows_eval
  have h2: "(1::nat) < 3" by simp
  have h3: "3 < length foo_rows" by (simp add: foo_rows_def)
  have names: "map sr_name foo_rows = [''Foo W'', ''X foo'', ''Y'', ''Z'']"
    by (simp add: foo_rows_def)
  have c: "sr_created_at (foo_rows ! 1) < sr_created_at (foo_rows ! 3)"
    by (simp add: foo_rows_def)
  have s1: "relevance_score (foo_rows ! 1) = 3" and s3: "relevance_score (foo_rows ! 3) = 1"
    by (simp_all add: foo_rows_def)
  have m1: "foo_rows ! 1 \<in> set foo_rows" and m3: "foo_rows ! 3 \<in> set foo_rows"
    by (simp_all add: foo_rows_def)
  from text_search_ranking [OF h1 h2 h3]
  have "\<exists>es. search_entities foo_db ''foo'' (Finite 10) = Inr es \<and> map name es = map sr_name foo_rows"
    and "relevance_score (foo_rows ! 3) \<le> relevance_score (foo_rows ! 1)"
    and "\<forall>r \<in> set foo_rows.
           (relevance_score r = 3 \<longleftrightarrow> like (search_pattern ''foo'') (sr_name r)) \<and>
           (relevance_score r = 1 \<longleftrightarrow> \<not> like (search_pattern ''foo'') (sr_name r) \<and>
              \<not> like (search_pattern ''foo'') (sr_entity_type r) \<and>
              list_ex (like (search_pattern ''foo'')) (select_observations foo_db (sr_name r)))"
    by (auto simp: list_all_iff)
  with m1 m3 s1 s3 h1 h2 h3 names c show ?thesis by auto
qed

subsection \<open>The limit\<close>






text \<open>
  A fraction between 1 and 50 passes the clamp as it is and \<^verbatim>\<open>LIMIT ?\<close> refuses it.
\<close>

lemma fractional_limit_refused:
  "effective_limit (Finite (5 / 2)) = Finite (5 / 2) \<and>
   search_nodes foo_db ''foo'' (Some (Finite (5 / 2))) = Inl (NodeSearchFailed SqliteMismatch)"
  by code_simp

subsection \<open>Queries that differ in their separators\<close>

lemma dropWhile_separators:
  "list_all is_separator r \<Longrightarrow> dropWhile is_separator (r @ xs) = dropWhile is_separator xs"
  by (induction r) auto

lemma normalize_run:
  assumes "r \<noteq> []" and "list_all is_separator r"
  shows "normalize_query (r @ xs) = CHR ''%'' # normalize_query (dropWhile is_separator xs)"
proof -
  from assms obtain a r' where r: "r = a # r'" and a: "is_separator a"
    and r': "list_all is_separator r'"
    by (cases r) auto
  then show ?thesis by (simp add: dropWhile_separators)
qed

lemma normalize_differ:
  "differ_only_in_separator_runs xs ys \<Longrightarrow>
     normalize_query xs = normalize_query ys \<and>
     normalize_query (dropWhile is_separator xs) = normalize_query (dropWhile is_separator ys)"
proof (induction rule: differ_only_in_separator_runs.induct)
  case sep_nil
  then show ?case by simp
next
  case (sep_char c xs ys)
  then show ?case by simp
next
  case (sep_run r1 r2 xs ys)
  then show ?case by (simp add: normalize_run dropWhile_separators)
qed

lemma search_pattern_differ:
  "differ_only_in_separator_runs q1 q2 \<Longrightarrow> search_pattern q1 = search_pattern q2"
  by (simp add: search_pattern_def normalize_differ)

text \<open>
  Claim C7, as amended. In the text-only client two queries that differ only in runs of
  white space, underscores and hyphens give the same pattern, so \<open>search_entities\<close>
  returns the same for both, and so does \<open>search_nodes\<close> when both queries pass its
  blank check or both fail it. In particular the pattern of \<^verbatim>\<open>web-development\<close> matches
  every entity whose type is \<^verbatim>\<open>web_development\<close> or \<^verbatim>\<open>web development\<close>.
\<close>

theorem separator_runs_equivalent:
  assumes "differ_only_in_separator_runs q1 q2"
  shows "search_entities d q1 limit = search_entities d q2 limit \<and>
         ((js_trim q1 = [] \<longleftrightarrow> js_trim q2 = []) \<longrightarrow>
            search_nodes d q1 limit_opt = search_nodes d q2 limit_opt) \<and>
         (e_entity_type e = ''web_development'' \<or> e_entity_type e = ''web development'' \<longrightarrow>
            where_matches (search_pattern ''web-development'') (e, oc))"
proof -
  from assms have "search_pattern q1 = search_pattern q2" by (rule search_pattern_differ)
  then have eq: "search_entities d q1 l = search_entities d q2 l" for l
    by (simp add: search_entities_def)
  have p: "search_pattern ''web-development'' = ''%web%development%''"
    by (simp add: search_pattern_def is_separator_def is_space_def)
  have "like ''%web%development%'' ''web_development''" "like ''%web%development%'' ''web development''"
    by (simp_all add: lower_ascii_def)
  with eq p show ?thesis by (auto simp: search_nodes_def where_matches_def)
qed

lemma web_names:
  "map_sum id (map name) (search_entities web_db ''web-development'' (Finite 10)) =
     Inr [''shop'', ''site'']"
  by code_simp

lemma web_differ: "differ_only_in_separator_runs ''web-development'' ''web_development''"
proof -
  have "differ_only_in_separator_runs ''development'' ''development''"
    by (intro sep_char sep_nil) (simp_all add: is_separator_def is_space_def)
  then have "differ_only_in_separator_runs (''-'' @ ''development'') (''_'' @ ''development'')"
    by (rule sep_run [rotated -1]) (simp_all add: is_separator_def)
  then show ?thesis
    by (intro sep_char) (simp_all add: is_separator_def is_space_def)
qed

lemma blank_differ: "differ_only_in_separator_runs '' '' ''-''"
proof -
  have "differ_only_in_separator_runs ('' '' @ []) (''-'' @ [])"
    by (rule sep_run [OF _ _ _ _ sep_nil]) (simp_all add: is_separator_def is_space_def)
  then show ?thesis by simp
qed

theorem separator_runs_equivalent_witness:
  "differ_only_in_separator_runs ''web-development'' ''web_development'' \<and>
   map_sum id (map name) (search_entities web_db ''web_development'' (Finite 10)) =
     Inr [''shop'', ''site''] \<and>
   search_nodes web_db ''web-development'' None = search_nodes web_db ''web_development'' None \<and>
   where_matches (search_pattern ''web-development'')
     (\<lparr>e_rowid = 1, e_name = ''site'', e_entity_type = ''web_development'', e_created_at = 10\<rparr>,
      Some ''static pages'')"
proof -
  have t: "js_trim ''web-development'' = [] \<longleftrightarrow> js_trim ''web_development'' = []"
    by (simp add: js_trim_def is_space_def)
  from separator_runs_equivalent [OF web_differ, of web_db "Finite 10" None
      "\<lparr>e_rowid = 1, e_name = ''site'', e_entity_type = ''web_development'', e_created_at = 10\<rparr>"
      "Some ''static pages''"] t web_names web_differ
  show ?thesis by simp
qed

text \<open>
  Claim C7 as stated fails. In the vector-enabled client, which takes the query as it
  is, \<^verbatim>\<open>web-development\<close> finds nothing where \<^verbatim>\<open>web_development\<close> finds two entities. In
  the text-only client \<open>search_nodes\<close> rejects the query made of one space and answers
  the query made of one hyphen with every entity.
\<close>

theorem separator_runs_counterexample:
  "differ_only_in_separator_runs ''web-development'' ''web_development'' \<and>
   search_nodes_vec web_vdb ''web-development'' = Inr ([], []) \<and>
   map_sum id (\<lambda>r. length (fst r)) (search_nodes_vec web_vdb ''web_development'') = Inr 2 \<and>
   differ_only_in_separator_runs '' '' ''-'' \<and>
   search_nodes web_db '' '' None = Inl (NodeSearchFailed TextQueryEmpty) \<and>
   map_sum id (\<lambda>r. map name (fst r)) (search_nodes web_db ''-'' None) =
     Inr [''farm'', ''shop'', ''site'']"
proof -
  have "search_nodes_vec web_vdb ''web-development'' = Inr ([], []) \<and>
   map_sum id (\<lambda>r. length (fst r)) (search_nodes_vec web_vdb ''web_development'') = Inr 2 \<and>
   search_nodes web_db '' '' None = Inl (NodeSearchFailed TextQueryEmpty) \<and>
   map_sum id (\<lambda>r. map name (fst r)) (search_nodes web_db ''-'' None) =
     Inr [''farm'', ''shop'', ''site'']"
    by code_simp
  with web_differ blank_differ show ?thesis by simp
qed

subsection \<open>Wildcards in the query\<close>

text \<open>
  Claim C10. The query goes into the \<^verbatim>\<open>LIKE\<close> pattern unescaped. In a store whose only
  entity is named \<^verbatim>\<open>axxb\<close>, the query \<^verbatim>\<open>a%b\<close> returns that entity in both clients,
  and so does \<^verbatim>\<open>a_xb\<close> in the vector-enabled client, although neither query is a
  literal substring of the entity's name, type or observation.
\<close>

theorem like_metacharacters_are_wildcards:
  "search_nodes axxb_db ''a%b'' None =
     Inr ([\<lparr>name = ''axxb'', entityType = ''word'', observations = [''four letters'']\<rparr>], []) \<and>
   search_nodes_vec axxb_vdb ''a%b'' =
     Inr ([\<lparr>name = ''axxb'', entityType = ''word'', observations = [''four letters''],
            embedding = None\<rparr>], []) \<and>
   search_nodes_vec axxb_vdb ''a_xb'' =
     Inr ([\<lparr>name = ''axxb'', entityType = ''word'', observations = [''four letters''],
            embedding = None\<rparr>], []) \<and>
   \<not> contains_literally ''axxb'' ''a%b'' \<and> \<not> contains_literally ''word'' ''a%b'' \<and>
   \<not> contains_literally ''four letters'' ''a%b'' \<and>
   \<not> contains_literally ''axxb'' ''a_xb'' \<and> \<not> contains_literally ''word'' ''a_xb'' \<and>
   \<not> contains_literally ''four letters'' ''a_xb''"
  by code_simp

end
